theory Spec2Isabelle
  imports Main
begin

section \<open>Errors and results\<close>

text \<open>
  Every exception of the Python source is a value. \<open>ShapeError\<close> stands for the
  dimension mismatches that the array library reports from \<open>dot\<close>, from a broadcasting
  \<open>+\<close>, from \<open>reshape\<close> and from \<open>concatenate\<close>; \<open>ValueError\<close> is what
  \<open>concatenate\<close> and \<open>stack\<close> raise on an empty list of arrays; \<open>IndexError\<close> is an
  index outside the leading axis.
\<close>

datatype error = ShapeError | ValueError | IndexError

type_synonym 'a result = "error + 'a"

section \<open>Tensors\<close>

text \<open>
  A \<open>JaxArray\<close> is a shape and a flat, row-major buffer of scalars. The scalar type
  \<open>'a\<close> is left open: the development only uses its \<open>0\<close>, \<open>+\<close> and \<open>*\<close> and no
  algebraic law of them, so that every sum is computed in one fixed order.
\<close>

record 'a tensor =
  shape :: "nat list"
  data :: "'a list"

definition well_shaped :: "'a tensor \<Rightarrow> bool" where
  "well_shaped t \<longleftrightarrow> length (data t) = prod_list (shape t)"

definition chunk :: "nat \<Rightarrow> nat \<Rightarrow> 'a list \<Rightarrow> 'a list" where
  "chunk k i xs = take k (drop (i * k) xs)"

text \<open>\<open>row t i\<close> is \<open>t[i]\<close> for an index inside the leading axis.\<close>

definition row :: "'a tensor \<Rightarrow> nat \<Rightarrow> 'a tensor" where
  "row t i = \<lparr>shape = tl (shape t), data = chunk (prod_list (tl (shape t))) i (data t)\<rparr>"

text \<open>\<open>t[i]\<close> with Python's negative indices; a rank-0 array cannot be indexed.\<close>

definition getitem :: "'a tensor \<Rightarrow> int \<Rightarrow> 'a tensor result" where
  "getitem t i =
     (case shape t of
        [] \<Rightarrow> Inl IndexError
      | n # s \<Rightarrow>
          (let j = (if i < 0 then i + int n else i)
           in if 0 \<le> j \<and> j < int n then Inr (row t (nat j)) else Inl IndexError))"

text \<open>The slices along the leading axis, in order (what a loop over an array visits).\<close>

definition slices :: "'a tensor \<Rightarrow> 'a tensor list result" where
  "slices t = (case shape t of [] \<Rightarrow> Inl ShapeError | n # s \<Rightarrow> Inr (map (row t) [0..<n]))"

text \<open>\<open>jn.stack(ts)\<close>: a new leading axis; all arrays must have one shape.\<close>

definition stack :: "'a tensor list \<Rightarrow> 'a tensor result" where
  "stack ts =
     (case ts of
        [] \<Rightarrow> Inl ValueError
      | t # _ \<Rightarrow>
          if list_all (\<lambda>u. shape u = shape t) ts
          then Inr \<lparr>shape = length ts # shape t, data = concat (map data ts)\<rparr>
          else Inl ShapeError)"

text \<open>\<open>jn.concatenate(ts, axis=0)\<close>.\<close>

definition concatenate :: "'a tensor list \<Rightarrow> 'a tensor result" where
  "concatenate ts =
     (case ts of
        [] \<Rightarrow> Inl ValueError
      | t # _ \<Rightarrow>
          if list_all (\<lambda>u. shape u \<noteq> [] \<and> tl (shape u) = tl (shape t)) ts
          then Inr \<lparr>shape = sum_list (map (\<lambda>u. hd (shape u)) ts) # tl (shape t),
                    data = concat (map data ts)\<rparr>
          else Inl ShapeError)"

text \<open>\<open>jn.reshape(t, s)\<close>: the buffer is kept, the number of elements must agree.\<close>

definition reshape :: "'a tensor \<Rightarrow> nat list \<Rightarrow> 'a tensor result" where
  "reshape t s =
     (if prod_list s = prod_list (shape t) then Inr \<lparr>shape = s, data = data t\<rparr>
      else Inl ShapeError)"

subsection \<open>Broadcasting addition\<close>

text \<open>
  Shapes are aligned at their last axis; two extents are compatible when they are equal
  or one of them is 1. Both functions below work on reversed shapes.
\<close>

fun bshape_rev :: "nat list \<Rightarrow> nat list \<Rightarrow> nat list option" where
  "bshape_rev [] ys = Some ys"
| "bshape_rev (x # xs) [] = Some (x # xs)"
| "bshape_rev (x # xs) (y # ys) =
     (if x = y \<or> y = 1 then map_option ((#) x) (bshape_rev xs ys)
      else if x = 1 then map_option ((#) y) (bshape_rev xs ys)
      else None)"

definition broadcast_shapes :: "nat list \<Rightarrow> nat list \<Rightarrow> nat list option" where
  "broadcast_shapes sa sb = map_option rev (bshape_rev (rev sa) (rev sb))"

text \<open>
  \<open>bindex rs ra i\<close>: the position, in the buffer of an operand of (reversed) shape
  \<open>ra\<close>, of the element that lands at position \<open>i\<close> of the result of (reversed) shape
  \<open>rs\<close>. An axis of extent 1 is repeated, a missing leading axis likewise.
\<close>

fun bindex :: "nat list \<Rightarrow> nat list \<Rightarrow> nat \<Rightarrow> nat" where
  "bindex rs [] i = 0"
| "bindex [] (m # ra) i = 0"
| "bindex (n # rs) (m # ra) i = (if m = 1 then 0 else i mod n) + m * bindex rs ra (i div n)"

definition add :: "('a::plus) tensor \<Rightarrow> 'a tensor \<Rightarrow> 'a tensor result" where
  "add a b =
     (case broadcast_shapes (shape a) (shape b) of
        None \<Rightarrow> Inl ShapeError
      | Some s \<Rightarrow>
          Inr \<lparr>shape = s,
               data = map (\<lambda>i. data a ! bindex (rev s) (rev (shape a)) i
                              + data b ! bindex (rev s) (rev (shape b)) i)
                          [0..<prod_list s]\<rparr>)"

text \<open>An activation is a scalar function applied to every element (\<open>tanh\<close> by default).\<close>

definition apply_activation :: "('a \<Rightarrow> 'a) \<Rightarrow> 'a tensor \<Rightarrow> 'a tensor" where
  "apply_activation f t = \<lparr>shape = shape t, data = map f (data t)\<rparr>"

section \<open>The affine transform\<close>

text \<open>
  Modelled from the spec: \<open>objax.nn.Linear\<close>, whose code is not part of the file under
  study. The spec asks of it: given \<open>(in_dim, out_dim)\<close> and an optional bias flag, it
  maps an array whose last axis has extent \<open>in_dim\<close> to one whose last axis has extent
  \<open>out_dim\<close> (one call may carry the inputs of all time steps), owns its weight and
  bias, and a dimension mismatch is a shape error. The weight matrix is kept as its two
  extents and its entry function \<open>(k, j) \<mapsto> w[k, j]\<close>, the bias as \<open>j \<mapsto> b[j]\<close>.
\<close>

record 'a Linear =
  lin_nin :: nat
  lin_nout :: nat
  lin_w :: "nat \<Rightarrow> nat \<Rightarrow> 'a"
  lin_b :: "(nat \<Rightarrow> 'a) option"

text \<open>
  The constructor. The initial entries, which the library draws at random, are
  arguments; \<open>use_bias=False\<close> is the bias \<open>None\<close>.
\<close>

definition Linear_init :: "nat \<Rightarrow> nat \<Rightarrow> (nat \<Rightarrow> nat \<Rightarrow> 'a) \<Rightarrow> (nat \<Rightarrow> 'a) option \<Rightarrow> 'a Linear" where
  "Linear_init n m W B = \<lparr>lin_nin = n, lin_nout = m, lin_w = W, lin_b = B\<rparr>"

text \<open>The sum \<open>f 0 + f 1 + ... + f (n - 1)\<close>, accumulated from the left, starting at 0.\<close>

definition lsum :: "(nat \<Rightarrow> 'a::{zero,plus}) \<Rightarrow> nat \<Rightarrow> 'a" where
  "lsum f n = foldl (+) 0 (map f [0..<n])"

definition vecmat :: "('a::{zero,plus,times}) Linear \<Rightarrow> 'a list \<Rightarrow> 'a list" where
  "vecmat L xs = map (\<lambda>j. lsum (\<lambda>k. xs ! k * lin_w L k j) (lin_nin L)) [0..<lin_nout L]"

text \<open>
  Modelled from the spec: the product of the input with the weight matrix inside
  \<open>objax.nn.Linear\<close>. Every vector along the last axis of the input is multiplied
  with the matrix; the last axis must have extent \<open>in_dim\<close>, and an array of rank 0,
  which has no last axis, is rejected.
\<close>

definition dot :: "('a::{zero,plus,times}) tensor \<Rightarrow> 'a Linear \<Rightarrow> 'a tensor result" where
  "dot x L =
     (if shape x \<noteq> [] \<and> last (shape x) = lin_nin L
      then Inr \<lparr>shape = butlast (shape x) @ [lin_nout L],
                data = concat (map (\<lambda>i. vecmat L (chunk (lin_nin L) i (data x)))
                                   [0..<prod_list (butlast (shape x))])\<rparr>
      else Inl ShapeError)"

definition bias_tensor :: "nat \<Rightarrow> (nat \<Rightarrow> 'a) \<Rightarrow> 'a tensor" where
  "bias_tensor m B = \<lparr>shape = [m], data = map B [0..<m]\<rparr>"

text \<open>
  Modelled from the spec: \<open>objax.nn.Linear.__call__\<close>, the product followed by the
  broadcasting addition of the bias when there is one.
\<close>

definition Linear_call :: "('a::{zero,plus,times}) Linear \<Rightarrow> 'a tensor \<Rightarrow> 'a tensor result" where
  "Linear_call L x =
     (case dot x L of
        Inl e \<Rightarrow> Inl e
      | Inr y \<Rightarrow>
          (case lin_b L of
             None \<Rightarrow> Inr y
           | Some B \<Rightarrow> add y (bias_tensor (lin_nout L) B)))"

section \<open>The cells\<close>

subsection \<open>DDLRnnCell\<close>

record 'a DDLRnnCell =
  wxh :: "'a Linear"
  whh :: "'a Linear"
  d_activation :: "'a \<Rightarrow> 'a"

definition DDLRnnCell_init ::
  "nat \<Rightarrow> nat \<Rightarrow> ('a \<Rightarrow> 'a) \<Rightarrow> (nat \<Rightarrow> nat \<Rightarrow> 'a) \<Rightarrow> (nat \<Rightarrow> nat \<Rightarrow> 'a) \<Rightarrow> (nat \<Rightarrow> 'a) \<Rightarrow> 'a DDLRnnCell" where
  "DDLRnnCell_init n ns act Wxh Whh Bhh =
     \<lparr>wxh = Linear_init n ns Wxh None,
      whh = Linear_init ns ns Whh (Some Bhh),
      d_activation = act\<rparr>"

definition DDLRnnCell_call ::
  "('a::{zero,plus,times}) DDLRnnCell \<Rightarrow> 'a tensor \<Rightarrow> 'a tensor \<Rightarrow> 'a tensor result" where
  "DDLRnnCell_call c state x =
     (case Linear_call (whh c) state of
        Inl e \<Rightarrow> Inl e
      | Inr a \<Rightarrow>
          (case Linear_call (wxh c) x of
             Inl e \<Rightarrow> Inl e
           | Inr b \<Rightarrow>
               (case add a b of
                  Inl e \<Rightarrow> Inl e
                | Inr y \<Rightarrow> Inr (apply_activation (d_activation c) y))))"

subsection \<open>MyRnnCell\<close>

text \<open>
  \<open>self.op\<close> is \<open>objax.nn.Sequential\<close> of two affine transforms and the activation:
  it applies them in that order (the spec: one affine transform from \<open>nin + nstate\<close> to
  \<open>nstate\<close>, a second from \<open>nstate\<close> to \<open>nstate\<close>, then the activation).
\<close>

record 'a MyRnnCell =
  op_linear1 :: "'a Linear"
  op_linear2 :: "'a Linear"
  op_activation :: "'a \<Rightarrow> 'a"

definition MyRnnCell_init ::
  "nat \<Rightarrow> nat \<Rightarrow> ('a \<Rightarrow> 'a) \<Rightarrow> (nat \<Rightarrow> nat \<Rightarrow> 'a) \<Rightarrow> (nat \<Rightarrow> 'a) \<Rightarrow> (nat \<Rightarrow> nat \<Rightarrow> 'a) \<Rightarrow> (nat \<Rightarrow> 'a) \<Rightarrow> 'a MyRnnCell" where
  "MyRnnCell_init n ns act W1 B1 W2 B2 =
     \<lparr>op_linear1 = Linear_init (n + ns) ns W1 (Some B1),
      op_linear2 = Linear_init ns ns W2 (Some B2),
      op_activation = act\<rparr>"

definition MyRnnCell_call ::
  "('a::{zero,plus,times}) MyRnnCell \<Rightarrow> 'a tensor \<Rightarrow> 'a tensor \<Rightarrow> 'a tensor result" where
  "MyRnnCell_call c state x =
     (case concatenate [x, state] of
        Inl e \<Rightarrow> Inl e
      | Inr v \<Rightarrow>
          (case Linear_call (op_linear1 c) v of
             Inl e \<Rightarrow> Inl e
           | Inr h \<Rightarrow>
               (case Linear_call (op_linear2 c) h of
                  Inl e \<Rightarrow> Inl e
                | Inr y \<Rightarrow> Inr (apply_activation (op_activation c) y))))"

subsection \<open>FactorizedRnnCell\<close>

text \<open>
  The one class whose \<open>__call__\<close> assigns to an attribute: \<open>self.factor\<close>. The call
  therefore returns the cell as it is afterwards, next to its result; \<open>factor\<close> is
  \<open>None\<close> as long as the attribute does not exist.
\<close>

record 'a FactorizedRnnCell =
  win :: "'a Linear"
  wn :: "'a Linear"
  f_activation :: "'a \<Rightarrow> 'a"
  nstate :: nat
  factor :: "'a tensor option"

definition FactorizedRnnCell_init ::
  "nat \<Rightarrow> nat \<Rightarrow> ('a \<Rightarrow> 'a) \<Rightarrow> (nat \<Rightarrow> nat \<Rightarrow> 'a) \<Rightarrow> (nat \<Rightarrow> nat \<Rightarrow> 'a) \<Rightarrow> (nat \<Rightarrow> 'a) \<Rightarrow> 'a FactorizedRnnCell" where
  "FactorizedRnnCell_init n ns act Win Wn Bn =
     \<lparr>win = Linear_init n ns Win None,
      wn = Linear_init ns ns Wn (Some Bn),
      f_activation = act,
      nstate = ns,
      factor = None\<rparr>"

text \<open>
  The \<open>for i in range(x.shape[0])\<close> loop over the remaining indices, with the loop
  variables \<open>state\<close> and \<open>output\<close>; \<open>fac\<close> is the value of \<open>self.factor\<close>, which the
  loop only reads.
\<close>

fun factorized_loop ::
  "('a::{zero,plus,times}) FactorizedRnnCell \<Rightarrow> 'a tensor \<Rightarrow> nat list \<Rightarrow> 'a tensor \<Rightarrow> 'a tensor list
     \<Rightarrow> ('a tensor \<times> 'a tensor list) result" where
  "factorized_loop c fac [] state output = Inr (state, output)"
| "factorized_loop c fac (i # is) state output =
     (case Linear_call (wn c) state of
        Inl e \<Rightarrow> Inl e
      | Inr a \<Rightarrow>
          (case getitem fac (int i) of
             Inl e \<Rightarrow> Inl e
           | Inr f_i \<Rightarrow>
               (case add a f_i of
                  Inl e \<Rightarrow> Inl e
                | Inr y \<Rightarrow>
                    (let state' = apply_activation (f_activation c) y
                     in case reshape state' [1, nstate c] of
                          Inl e \<Rightarrow> Inl e
                        | Inr output_i \<Rightarrow> factorized_loop c fac is state' (output @ [output_i])))))"

definition FactorizedRnnCell_call ::
  "('a::{zero,plus,times}) FactorizedRnnCell \<Rightarrow> 'a tensor \<Rightarrow> 'a tensor
     \<Rightarrow> 'a tensor result \<times> 'a FactorizedRnnCell" where
  "FactorizedRnnCell_call c state x =
     (case Linear_call (win c) x of
        Inl e \<Rightarrow> (Inl e, c)
      | Inr fac \<Rightarrow>
          (let c' = c\<lparr>factor := Some fac\<rparr>
           in ((case shape x of
                  [] \<Rightarrow> Inl IndexError
                | T # _ \<Rightarrow>
                    (case factorized_loop c' fac [0..<T] state [] of
                       Inl e \<Rightarrow> Inl e
                     | Inr (state', output) \<Rightarrow>
                         (case concatenate output of
                            Inl e \<Rightarrow> Inl e
                          | Inr outputs \<Rightarrow> reshape state' [1, nstate c']))),
               c')))"

section \<open>The sequential fold and the vectorizing transform\<close>

text \<open>
  Results stacked along a new leading axis. For no result at all the spec fixes no
  element shape; the stacked array is then the empty array of shape \<open>[0]\<close>.
\<close>

definition restack :: "'a tensor list \<Rightarrow> 'a tensor result" where
  "restack ys = (case ys of [] \<Rightarrow> Inr \<lparr>shape = [0], data = []\<rparr> | _ # _ \<Rightarrow> stack ys)"

text \<open>
  Modelled from the spec: \<open>objax.functional.scan\<close>, whose code is not part of the file
  under study. The spec asks of it: given a step function
  \<open>(state, elem) \<rightarrow> (new_state, out)\<close>, an initial state and a sequence, it returns
  \<open>(final_state, ordered_sequence_of_out)\<close>, in traversal order, left to right.
\<close>

fun scan_list ::
  "('a tensor \<Rightarrow> 'a tensor \<Rightarrow> ('a tensor \<times> 'a tensor) result) \<Rightarrow> 'a tensor \<Rightarrow> 'a tensor list
     \<Rightarrow> ('a tensor \<times> 'a tensor list) result" where
  "scan_list f s [] = Inr (s, [])"
| "scan_list f s (x # xs) =
     (case f s x of
        Inl e \<Rightarrow> Inl e
      | Inr (s', y) \<Rightarrow>
          (case scan_list f s' xs of
             Inl e \<Rightarrow> Inl e
           | Inr (s'', ys) \<Rightarrow> Inr (s'', y # ys)))"

text \<open>
  Modelled from the spec: \<open>objax.functional.scan\<close> on arrays. The sequence is the
  list of slices along the leading axis of \<open>xs\<close>, the outputs are stacked along a new
  leading axis.
\<close>

definition scan ::
  "('a tensor \<Rightarrow> 'a tensor \<Rightarrow> ('a tensor \<times> 'a tensor) result) \<Rightarrow> 'a tensor \<Rightarrow> 'a tensor
     \<Rightarrow> ('a tensor \<times> 'a tensor) result" where
  "scan f init xs =
     (case slices xs of
        Inl e \<Rightarrow> Inl e
      | Inr elems \<Rightarrow>
          (case scan_list f init elems of
             Inl e \<Rightarrow> Inl e
           | Inr (final, ys) \<Rightarrow>
               (case restack ys of
                  Inl e \<Rightarrow> Inl e
                | Inr out \<Rightarrow> Inr (final, out))))"

text \<open>The first error of a list of results, or all the values.\<close>

fun collect :: "'b result list \<Rightarrow> 'b list result" where
  "collect [] = Inr []"
| "collect (r # rs) =
     (case r of
        Inl e \<Rightarrow> Inl e
      | Inr v \<Rightarrow> (case collect rs of Inl e \<Rightarrow> Inl e | Inr vs \<Rightarrow> Inr (v # vs)))"

text \<open>
  Modelled from the spec: \<open>objax.Vectorize\<close> with \<open>batch_axis=(0, 0)\<close>, whose code is
  not part of the file under study. The spec asks of it: given a function and the batch
  axes of its inputs, it returns a function that applies the original independently per
  batch slice and restacks the results along the same axes. The function here returns
  a pair, and each component is restacked.
\<close>

definition Vectorize ::
  "('a tensor \<Rightarrow> 'a tensor \<Rightarrow> ('a tensor \<times> 'a tensor) result) \<Rightarrow> 'a tensor \<Rightarrow> 'a tensor
     \<Rightarrow> ('a tensor \<times> 'a tensor) result" where
  "Vectorize f x s =
     (case slices x of
        Inl e \<Rightarrow> Inl e
      | Inr xs \<Rightarrow>
          (case slices s of
             Inl e \<Rightarrow> Inl e
           | Inr ss \<Rightarrow>
               if length xs \<noteq> length ss then Inl ShapeError
               else
                 (case collect (map2 f xs ss) of
                    Inl e \<Rightarrow> Inl e
                  | Inr rs \<Rightarrow>
                      (case restack (map fst rs) of
                         Inl e \<Rightarrow> Inl e
                       | Inr y0 \<Rightarrow>
                           (case restack (map snd rs) of
                              Inl e \<Rightarrow> Inl e
                            | Inr y1 \<Rightarrow> Inr (y0, y1))))))"

text \<open>
  \<open>x.transpose((1, 0, 2))\<close>: only an array of rank 3 has these axes. Element
  \<open>[t, b, :]\<close> of the result is element \<open>[b, t, :]\<close> of \<open>x\<close>.
\<close>

definition transpose102 :: "'a tensor \<Rightarrow> 'a tensor result" where
  "transpose102 x =
     (case shape x of
        [B, T, n] \<Rightarrow>
          Inr \<lparr>shape = [T, B, n],
               data = concat (map (\<lambda>t. concat (map (\<lambda>b. chunk n (b * T + t) (data x)) [0..<B]))
                                  [0..<T])\<rparr>
      | _ \<Rightarrow> Inl ShapeError)"

section \<open>The drivers\<close>

text \<open>
  A driver holds a cell and an output layer; both are callables. For \<open>RNN\<close> and
  \<open>VectorizedRNN\<close> the cell is a one-step update \<open>(state, x) \<rightarrow> state\<close>, for
  \<open>FactorizedRNN\<close> it is the \<open>FactorizedRnnCell\<close>, which writes to itself.
\<close>

subsection \<open>RNN\<close>

record 'a RNN =
  rnn_cell :: "'a tensor \<Rightarrow> 'a tensor \<Rightarrow> 'a tensor result"
  rnn_output_layer :: "'a tensor \<Rightarrow> 'a tensor result"

definition RNN_single :: "'a RNN \<Rightarrow> 'a tensor \<Rightarrow> 'a tensor \<Rightarrow> ('a tensor \<times> 'a tensor) result" where
  "RNN_single r state_i x_i =
     (case rnn_cell r state_i x_i of
        Inl e \<Rightarrow> Inl e
      | Inr next_state \<Rightarrow>
          (case rnn_output_layer r next_state of
             Inl e \<Rightarrow> Inl e
           | Inr next_output \<Rightarrow> Inr (next_state, next_output)))"

definition RNN_call :: "'a RNN \<Rightarrow> 'a tensor \<Rightarrow> 'a tensor \<Rightarrow> ('a tensor \<times> 'a tensor) result" where
  "RNN_call r x state =
     (case transpose102 x of
        Inl e \<Rightarrow> Inl e
      | Inr xt \<Rightarrow>
          (case scan (RNN_single r) state xt of
             Inl e \<Rightarrow> Inl e
           | Inr (final_state, output) \<Rightarrow> Inr (output, final_state)))"

subsection \<open>VectorizedRNN\<close>

record 'a VectorizedRNN =
  vec_cell :: "'a tensor \<Rightarrow> 'a tensor \<Rightarrow> 'a tensor result"
  vec_output_layer :: "'a tensor \<Rightarrow> 'a tensor result"

definition VectorizedRNN_single ::
  "'a VectorizedRNN \<Rightarrow> 'a tensor \<Rightarrow> 'a tensor \<Rightarrow> ('a tensor \<times> 'a tensor) result" where
  "VectorizedRNN_single r state_i x_i =
     (case vec_cell r state_i x_i of
        Inl e \<Rightarrow> Inl e
      | Inr next_state \<Rightarrow>
          (case vec_output_layer r next_state of
             Inl e \<Rightarrow> Inl e
           | Inr next_output \<Rightarrow> Inr (next_state, next_output)))"

definition VectorizedRNN_call ::
  "'a VectorizedRNN \<Rightarrow> 'a tensor \<Rightarrow> 'a tensor \<Rightarrow> ('a tensor \<times> 'a tensor) result" where
  "VectorizedRNN_call r x state =
     (case scan (VectorizedRNN_single r) state x of
        Inl e \<Rightarrow> Inl e
      | Inr (final_state, output) \<Rightarrow> Inr (output, final_state))"

text \<open>\<open>rnn_vec = objax.Vectorize(r, batch_axis=(0, 0))\<close>.\<close>

definition rnn_vec ::
  "'a VectorizedRNN \<Rightarrow> 'a tensor \<Rightarrow> 'a tensor \<Rightarrow> ('a tensor \<times> 'a tensor) result" where
  "rnn_vec r = Vectorize (VectorizedRNN_call r)"

subsection \<open>FactorizedRNN\<close>

record 'a FactorizedRNN =
  fac_cell :: "'a FactorizedRnnCell"
  fac_output_layer :: "'a tensor \<Rightarrow> 'a tensor result"

definition FactorizedRNN_call ::
  "('a::{zero,plus,times}) FactorizedRNN \<Rightarrow> 'a tensor \<Rightarrow> 'a tensor
     \<Rightarrow> ('a tensor \<times> 'a tensor) result \<times> 'a FactorizedRNN" where
  "FactorizedRNN_call r x state =
     (case FactorizedRnnCell_call (fac_cell r) state x of
        (res, c') \<Rightarrow>
          ((case res of
              Inl e \<Rightarrow> Inl e
            | Inr out \<Rightarrow>
                (case fac_output_layer r out of
                   Inl e \<Rightarrow> Inl e
                 | Inr output \<Rightarrow>
                     (case getitem out (- 1) of
                        Inl e \<Rightarrow> Inl e
                      | Inr final \<Rightarrow> Inr (output, final)))),
           r\<lparr>fac_cell := c'\<rparr>))"

subsection \<open>Constructors\<close>

definition RNN_init ::
  "('a tensor \<Rightarrow> 'a tensor \<Rightarrow> 'a tensor result) \<Rightarrow> ('a tensor \<Rightarrow> 'a tensor result) \<Rightarrow> 'a RNN" where
  "RNN_init cell ol = \<lparr>rnn_cell = cell, rnn_output_layer = ol\<rparr>"

definition VectorizedRNN_init ::
  "('a tensor \<Rightarrow> 'a tensor \<Rightarrow> 'a tensor result) \<Rightarrow> ('a tensor \<Rightarrow> 'a tensor result)
     \<Rightarrow> 'a VectorizedRNN" where
  "VectorizedRNN_init cell ol = \<lparr>vec_cell = cell, vec_output_layer = ol\<rparr>"

definition FactorizedRNN_init ::
  "'a FactorizedRnnCell \<Rightarrow> ('a tensor \<Rightarrow> 'a tensor result) \<Rightarrow> 'a FactorizedRNN" where
  "FactorizedRNN_init cell ol = \<lparr>fac_cell = cell, fac_output_layer = ol\<rparr>"

subsection \<open>The output layer of the example\<close>

text \<open>\<open>output_layer(state, nout)\<close> returns an affine transform with bias.\<close>

definition output_layer :: "nat \<Rightarrow> nat \<Rightarrow> (nat \<Rightarrow> nat \<Rightarrow> 'a) \<Rightarrow> (nat \<Rightarrow> 'a) \<Rightarrow> 'a Linear" where
  "output_layer state nout Wo Bo = Linear_init state nout Wo (Some Bo)"

section \<open>The forward calls as operations on objects\<close>

text \<open>
  Every \<open>__call__\<close> is a method of an object: it can assign to the attributes of
  \<open>self\<close>, and so can every call it makes on an object that \<open>self\<close> holds. In this
  section each forward call returns, next to its result, the object as it is after the
  call, and the object that results from a call on a sub-object is stored back into its
  owner. An exception keeps what was written before it was raised.
\<close>

text \<open>
  Modelled from the spec: \<open>objax.nn.Linear.__call__\<close> as an operation on the transform's
  own weight and bias storage. The spec has the parameters read-only during a forward
  call: the storage is read and handed back as it was.
\<close>

definition Linear_call_st ::
  "('a::{zero,plus,times}) tensor \<Rightarrow> 'a Linear \<Rightarrow> 'a tensor result \<times> 'a Linear" where
  "Linear_call_st x L = (Linear_call L x, L)"

definition MyRnnCell_call_st ::
  "('a::{zero,plus,times}) tensor \<Rightarrow> 'a tensor \<Rightarrow> 'a MyRnnCell \<Rightarrow> 'a tensor result \<times> 'a MyRnnCell" where
  "MyRnnCell_call_st state x c =
     (case concatenate [x, state] of
        Inl e \<Rightarrow> (Inl e, c)
      | Inr v \<Rightarrow>
          (case Linear_call_st v (op_linear1 c) of
             (r1, l1) \<Rightarrow>
               (let c1 = c\<lparr>op_linear1 := l1\<rparr>
                in case r1 of
                     Inl e \<Rightarrow> (Inl e, c1)
                   | Inr h \<Rightarrow>
                       (case Linear_call_st h (op_linear2 c1) of
                          (r2, l2) \<Rightarrow>
                            (let c2 = c1\<lparr>op_linear2 := l2\<rparr>
                             in case r2 of
                                  Inl e \<Rightarrow> (Inl e, c2)
                                | Inr y \<Rightarrow> (Inr (apply_activation (op_activation c2) y), c2))))))"

definition DDLRnnCell_call_st ::
  "('a::{zero,plus,times}) tensor \<Rightarrow> 'a tensor \<Rightarrow> 'a DDLRnnCell \<Rightarrow> 'a tensor result \<times> 'a DDLRnnCell" where
  "DDLRnnCell_call_st state x c =
     (case Linear_call_st state (whh c) of
        (r1, l1) \<Rightarrow>
          (let c1 = c\<lparr>whh := l1\<rparr>
           in case r1 of
                Inl e \<Rightarrow> (Inl e, c1)
              | Inr a \<Rightarrow>
                  (case Linear_call_st x (wxh c1) of
                     (r2, l2) \<Rightarrow>
                       (let c2 = c1\<lparr>wxh := l2\<rparr>
                        in case r2 of
                             Inl e \<Rightarrow> (Inl e, c2)
                           | Inr b \<Rightarrow>
                               (case add a b of
                                  Inl e \<Rightarrow> (Inl e, c2)
                                | Inr y \<Rightarrow> (Inr (apply_activation (d_activation c2) y), c2))))))"

text \<open>
  The loop of \<open>FactorizedRnnCell.__call__\<close>; each pass calls \<open>self.wn\<close>. As above,
  \<open>fac\<close> is the value of \<open>self.factor\<close>, which the loop only reads.
\<close>

fun factorized_loop_st ::
  "('a::{zero,plus,times}) tensor \<Rightarrow> nat list \<Rightarrow> 'a tensor \<Rightarrow> 'a tensor list \<Rightarrow> 'a FactorizedRnnCell
     \<Rightarrow> ('a tensor \<times> 'a tensor list) result \<times> 'a FactorizedRnnCell" where
  "factorized_loop_st fac [] state output c = (Inr (state, output), c)"
| "factorized_loop_st fac (i # is) state output c =
     (case Linear_call_st state (wn c) of
        (r1, l1) \<Rightarrow>
          (let c1 = c\<lparr>wn := l1\<rparr>
           in case r1 of
                Inl e \<Rightarrow> (Inl e, c1)
              | Inr a \<Rightarrow>
                  (case getitem fac (int i) of
                     Inl e \<Rightarrow> (Inl e, c1)
                   | Inr f_i \<Rightarrow>
                       (case add a f_i of
                          Inl e \<Rightarrow> (Inl e, c1)
                        | Inr y \<Rightarrow>
                            (let state' = apply_activation (f_activation c1) y
                             in case reshape state' [1, nstate c1] of
                                  Inl e \<Rightarrow> (Inl e, c1)
                                | Inr output_i \<Rightarrow>
                                    factorized_loop_st fac is state' (output @ [output_i]) c1)))))"

definition FactorizedRnnCell_call_st ::
  "('a::{zero,plus,times}) tensor \<Rightarrow> 'a tensor \<Rightarrow> 'a FactorizedRnnCell
     \<Rightarrow> 'a tensor result \<times> 'a FactorizedRnnCell" where
  "FactorizedRnnCell_call_st state x c =
     (case Linear_call_st x (win c) of
        (r0, l0) \<Rightarrow>
          (let c0 = c\<lparr>win := l0\<rparr>
           in case r0 of
                Inl e \<Rightarrow> (Inl e, c0)
              | Inr fac \<Rightarrow>
                  (let c1 = c0\<lparr>factor := Some fac\<rparr>
                   in case shape x of
                        [] \<Rightarrow> (Inl IndexError, c1)
                      | T # _ \<Rightarrow>
                          (case factorized_loop_st fac [0..<T] state [] c1 of
                             (r2, c2) \<Rightarrow>
                               (case r2 of
                                  Inl e \<Rightarrow> (Inl e, c2)
                                | Inr (state', output) \<Rightarrow>
                                    (case concatenate output of
                                       Inl e \<Rightarrow> (Inl e, c2)
                                     | Inr outputs \<Rightarrow> (reshape state' [1, nstate c2], c2)))))))"

subsection \<open>The object store\<close>

text \<open>
  The drivers do not own their cell and their output layer: in the example one cell and
  one output layer are shared by several drivers. The objects live in a store, by
  address, and a driver holds two addresses. A cell is an object of one of the three
  cell classes; an output layer is an affine transform or a plain function. The store
  also holds the state of the default random generator, from which the example draws
  its input.
\<close>

datatype 'a cell_obj =
    MyRnnCellM "'a MyRnnCell"
  | FactorizedRnnCellM "'a FactorizedRnnCell"
  | DDLRnnCellM "'a DDLRnnCell"

datatype 'a layer_obj =
    LinearM "'a Linear"
  | FunctionM "'a tensor \<Rightarrow> 'a tensor result"

record 'a world =
  cells :: "nat \<Rightarrow> 'a cell_obj"
  layers :: "nat \<Rightarrow> 'a layer_obj"
  generator :: nat

text \<open>
  \<open>self.cell(state, x)\<close> and \<open>self.output_layer(x)\<close>: the call is dispatched on the
  class of the object at the address, and the object is stored back as the call left it.
\<close>

definition call_cell ::
  "nat \<Rightarrow> ('a::{zero,plus,times}) tensor \<Rightarrow> 'a tensor \<Rightarrow> 'a world \<Rightarrow> 'a tensor result \<times> 'a world" where
  "call_cell a state x w =
     (case cells w a of
        MyRnnCellM c \<Rightarrow>
          (case MyRnnCell_call_st state x c of
             (r, c') \<Rightarrow> (r, w\<lparr>cells := (cells w)(a := MyRnnCellM c')\<rparr>))
      | FactorizedRnnCellM c \<Rightarrow>
          (case FactorizedRnnCell_call_st state x c of
             (r, c') \<Rightarrow> (r, w\<lparr>cells := (cells w)(a := FactorizedRnnCellM c')\<rparr>))
      | DDLRnnCellM c \<Rightarrow>
          (case DDLRnnCell_call_st state x c of
             (r, c') \<Rightarrow> (r, w\<lparr>cells := (cells w)(a := DDLRnnCellM c')\<rparr>)))"

definition call_layer ::
  "nat \<Rightarrow> ('a::{zero,plus,times}) tensor \<Rightarrow> 'a world \<Rightarrow> 'a tensor result \<times> 'a world" where
  "call_layer a x w =
     (case layers w a of
        LinearM L \<Rightarrow>
          (case Linear_call_st x L of
             (r, L') \<Rightarrow> (r, w\<lparr>layers := (layers w)(a := LinearM L')\<rparr>))
      | FunctionM f \<Rightarrow> (f x, w))"

text \<open>
  The three driver classes have the same two attributes, \<open>self.cell\<close> and
  \<open>self.output_layer\<close>, set by \<open>__init__\<close> and never assigned again.
\<close>

record driver_obj =
  self_cell :: nat
  self_output_layer :: nat

text \<open>\<open>single\<close>, which \<open>RNN\<close> and \<open>VectorizedRNN\<close> define alike.\<close>

definition single_st ::
  "driver_obj \<Rightarrow> ('a::{zero,plus,times}) tensor \<Rightarrow> 'a tensor \<Rightarrow> 'a world
     \<Rightarrow> ('a tensor \<times> 'a tensor) result \<times> 'a world" where
  "single_st d state_i x_i w =
     (case call_cell (self_cell d) state_i x_i w of
        (r1, w1) \<Rightarrow>
          (case r1 of
             Inl e \<Rightarrow> (Inl e, w1)
           | Inr next_state \<Rightarrow>
               (case call_layer (self_output_layer d) next_state w1 of
                  (r2, w2) \<Rightarrow>
                    (case r2 of
                       Inl e \<Rightarrow> (Inl e, w2)
                     | Inr next_output \<Rightarrow> (Inr (next_state, next_output), w2)))))"

text \<open>
  Modelled from the spec: \<open>objax.functional.scan\<close> with a step function that acts on
  the store. The steps run left to right, each in the store the step before left.
\<close>

fun scan_list_st ::
  "('a tensor \<Rightarrow> 'a tensor \<Rightarrow> 'w \<Rightarrow> ('a tensor \<times> 'a tensor) result \<times> 'w) \<Rightarrow> 'a tensor \<Rightarrow> 'a tensor list
     \<Rightarrow> 'w \<Rightarrow> ('a tensor \<times> 'a tensor list) result \<times> 'w" where
  "scan_list_st f s [] w = (Inr (s, []), w)"
| "scan_list_st f s (x # xs) w =
     (case f s x w of
        (r1, w1) \<Rightarrow>
          (case r1 of
             Inl e \<Rightarrow> (Inl e, w1)
           | Inr (s', y) \<Rightarrow>
               (case scan_list_st f s' xs w1 of
                  (r2, w2) \<Rightarrow>
                    (case r2 of
                       Inl e \<Rightarrow> (Inl e, w2)
                     | Inr (s'', ys) \<Rightarrow> (Inr (s'', y # ys), w2)))))"

definition scan_st ::
  "('a tensor \<Rightarrow> 'a tensor \<Rightarrow> 'w \<Rightarrow> ('a tensor \<times> 'a tensor) result \<times> 'w) \<Rightarrow> 'a tensor \<Rightarrow> 'a tensor
     \<Rightarrow> 'w \<Rightarrow> ('a tensor \<times> 'a tensor) result \<times> 'w" where
  "scan_st f init xs w =
     (case slices xs of
        Inl e \<Rightarrow> (Inl e, w)
      | Inr elems \<Rightarrow>
          (case scan_list_st f init elems w of
             (r, w1) \<Rightarrow>
               (case r of
                  Inl e \<Rightarrow> (Inl e, w1)
                | Inr (final, ys) \<Rightarrow>
                    (case restack ys of
                       Inl e \<Rightarrow> (Inl e, w1)
                     | Inr out \<Rightarrow> (Inr (final, out), w1)))))"

definition RNN_call_st ::
  "driver_obj \<Rightarrow> ('a::{zero,plus,times}) tensor \<Rightarrow> 'a tensor \<Rightarrow> 'a world
     \<Rightarrow> ('a tensor \<times> 'a tensor) result \<times> 'a world" where
  "RNN_call_st d x state w =
     (case transpose102 x of
        Inl e \<Rightarrow> (Inl e, w)
      | Inr xt \<Rightarrow>
          (case scan_st (single_st d) state xt w of
             (r, w1) \<Rightarrow>
               (case r of
                  Inl e \<Rightarrow> (Inl e, w1)
                | Inr (final_state, output) \<Rightarrow> (Inr (output, final_state), w1))))"

definition VectorizedRNN_call_st ::
  "driver_obj \<Rightarrow> ('a::{zero,plus,times}) tensor \<Rightarrow> 'a tensor \<Rightarrow> 'a world
     \<Rightarrow> ('a tensor \<times> 'a tensor) result \<times> 'a world" where
  "VectorizedRNN_call_st d x state w =
     (case scan_st (single_st d) state x w of
        (r, w1) \<Rightarrow>
          (case r of
             Inl e \<Rightarrow> (Inl e, w1)
           | Inr (final_state, output) \<Rightarrow> (Inr (output, final_state), w1)))"

definition FactorizedRNN_call_st ::
  "driver_obj \<Rightarrow> ('a::{zero,plus,times}) tensor \<Rightarrow> 'a tensor \<Rightarrow> 'a world
     \<Rightarrow> ('a tensor \<times> 'a tensor) result \<times> 'a world" where
  "FactorizedRNN_call_st d x state w =
     (case call_cell (self_cell d) state x w of
        (r1, w1) \<Rightarrow>
          (case r1 of
             Inl e \<Rightarrow> (Inl e, w1)
           | Inr out \<Rightarrow>
               (case call_layer (self_output_layer d) out w1 of
                  (r2, w2) \<Rightarrow>
                    (case r2 of
                       Inl e \<Rightarrow> (Inl e, w2)
                     | Inr output \<Rightarrow>
                         (case getitem out (- 1) of
                            Inl e \<Rightarrow> (Inl e, w2)
                          | Inr final \<Rightarrow> (Inr (output, final), w2))))))"

subsection \<open>What the parameters are\<close>

text \<open>
  A cell object without the content of its factor cache: the cell's affine transforms
  (weights and biases), its activation and, for the factorized cell, \<open>nstate\<close>.
\<close>

definition erase_cache :: "'a cell_obj \<Rightarrow> 'a cell_obj" where
  "erase_cache m =
     (case m of
        MyRnnCellM c \<Rightarrow> MyRnnCellM c
      | FactorizedRnnCellM c \<Rightarrow> FactorizedRnnCellM (c\<lparr>factor := None\<rparr>)
      | DDLRnnCellM c \<Rightarrow> DDLRnnCellM c)"

definition learned :: "'a world \<Rightarrow> nat \<Rightarrow> 'a cell_obj" where
  "learned w a = erase_cache (cells w a)"

text \<open>
  The cell and the output layer at an address of a store, as functions of their
  arguments: what the drivers of the sections above are built from.
\<close>

definition cell_fun ::
  "('a::{zero,plus,times}) world \<Rightarrow> nat \<Rightarrow> 'a tensor \<Rightarrow> 'a tensor \<Rightarrow> 'a tensor result" where
  "cell_fun w a state x = fst (call_cell a state x w)"

definition layer_fun :: "('a::{zero,plus,times}) world \<Rightarrow> nat \<Rightarrow> 'a tensor \<Rightarrow> 'a tensor result" where
  "layer_fun w a x = fst (call_layer a x w)"

section \<open>A small configuration\<close>

text \<open>
  The example of the source (a \<open>DDLRnnCell\<close>, an affine output layer, the three
  drivers, a batch \<open>x\<close> and initial states \<open>s\<close>) with dimensions
  \<open>seq, ns, nin, nout, batch = 2, 2, 1, 1, 2\<close> and fixed integer weights in place of the
  random ones.
\<close>

definition ex_rnn_cell :: "int DDLRnnCell" where
  "ex_rnn_cell =
     DDLRnnCell_init 1 2 (\<lambda>v. 2 * v) (\<lambda>k j. 1 + int j) (\<lambda>k j. int k + int j) (\<lambda>j. 10)"

definition ex_out_layer :: "int Linear" where
  "ex_out_layer = output_layer 2 1 (\<lambda>k j. 1) (\<lambda>j. 5)"

definition ex_RNN :: "int RNN" where
  "ex_RNN = RNN_init (DDLRnnCell_call ex_rnn_cell) (Linear_call ex_out_layer)"

definition ex_VectorizedRNN :: "int VectorizedRNN" where
  "ex_VectorizedRNN = VectorizedRNN_init (DDLRnnCell_call ex_rnn_cell) (Linear_call ex_out_layer)"

definition ex_x :: "int tensor" where
  "ex_x = \<lparr>shape = [2, 2, 1], data = [3, 4, 5, 6]\<rparr>"

definition ex_s :: "int tensor" where
  "ex_s = \<lparr>shape = [2, 2], data = [1, 2, 0, 1]\<rparr>"

text \<open>
  A store for the example: the canonical cell at address 0, a factorized cell with the
  same weights at address 1, the output layer at every layer address; and the same store
  after other calls have filled the factor cache and random numbers have been drawn.
\<close>

definition ex_factorized_cell :: "int FactorizedRnnCell" where
  "ex_factorized_cell =
     FactorizedRnnCell_init 1 2 (\<lambda>v. 2 * v) (\<lambda>k j. 1 + int j) (\<lambda>k j. int k + int j) (\<lambda>j. 10)"

definition ex_world :: "int world" where
  "ex_world =
     \<lparr>cells = (\<lambda>a. if a = 0 then DDLRnnCellM ex_rnn_cell else FactorizedRnnCellM ex_factorized_cell),
      layers = (\<lambda>a. LinearM ex_out_layer),
      generator = 0\<rparr>"

definition ex_world_later :: "int world" where
  "ex_world_later =
     \<lparr>cells = (\<lambda>a. if a = 0 then DDLRnnCellM ex_rnn_cell
                     else FactorizedRnnCellM (ex_factorized_cell\<lparr>factor := Some ex_s\<rparr>)),
      layers = (\<lambda>a. LinearM ex_out_layer),
      generator = 5\<rparr>"

section \<open>Reference semantics\<close>

text \<open>
  Following the spec's words for the canonical cell:
  \<open>new_state = activation(W_hh * state + b + W_xh * input)\<close>, component by component.
\<close>

definition elman_update ::
  "('a \<Rightarrow> 'a) \<Rightarrow> nat \<Rightarrow> nat \<Rightarrow> (nat \<Rightarrow> nat \<Rightarrow> 'a) \<Rightarrow> (nat \<Rightarrow> nat \<Rightarrow> 'a) \<Rightarrow> (nat \<Rightarrow> 'a::{zero,plus,times})
     \<Rightarrow> 'a list \<Rightarrow> 'a list \<Rightarrow> 'a list" where
  "elman_update act n ns Wxh Whh Bhh s x =
     map (\<lambda>j. act (lsum (\<lambda>k. s ! k * Whh k j) ns + Bhh j + lsum (\<lambda>k. x ! k * Wxh k j) n))
         [0..<ns]"

text \<open>A one-step update applied to the elements of a sequence in order, from a state.\<close>

fun run_steps ::
  "('a tensor \<Rightarrow> 'a tensor \<Rightarrow> 'a tensor result) \<Rightarrow> 'a tensor \<Rightarrow> 'a tensor list \<Rightarrow> 'a tensor result" where
  "run_steps f s [] = Inr s"
| "run_steps f s (x # xs) = (case f s x of Inl e \<Rightarrow> Inl e | Inr s' \<Rightarrow> run_steps f s' xs)"

text \<open>
  \<open>x[:, t, :]\<close> for an array of rank 3: the elements at position \<open>t\<close> of all the
  sequences of a batch-major input, in batch order.
\<close>

definition time_slice :: "'a tensor \<Rightarrow> nat \<Rightarrow> 'a tensor" where
  "time_slice x t =
     \<lparr>shape = [shape x ! 0, shape x ! 2],
      data = concat (map (\<lambda>b. data (row (row x b) t)) [0..<shape x ! 0])\<rparr>"

section \<open>Properties of the array operations\<close>

lemma lsum_cong: "(\<And>k. k < n \<Longrightarrow> f k = g k) \<Longrightarrow> lsum f n = lsum g n"
proof -
  assume "\<And>k. k < n \<Longrightarrow> f k = g k"
  then have "map f [0..<n] = map g [0..<n]" by simp
  then show ?thesis by (simp only: lsum_def)
qed

lemma vecmat_cong:
  "(\<And>k. k < lin_nin L \<Longrightarrow> xs ! k = ys ! k) \<Longrightarrow> vecmat L xs = vecmat L ys"
  unfolding vecmat_def by (intro map_cong refl lsum_cong) simp

lemma vecmat_take: "vecmat L (take (lin_nin L) xs) = vecmat L xs"
  by (rule vecmat_cong) simp

lemma length_vecmat [simp]: "length (vecmat L xs) = lin_nout L"
  by (simp add: vecmat_def)

lemma broadcast_same1: "broadcast_shapes [n] [n] = Some [n]"
  by (simp add: broadcast_shapes_def)

lemma add_vec:
  "shape a = [n] \<Longrightarrow> shape b = [n] \<Longrightarrow>
   add a b = Inr \<lparr>shape = [n], data = map (\<lambda>i. data a ! i + data b ! i) [0..<n]\<rparr>"
  by (simp add: add_def broadcast_same1)

lemma dot_vec:
  "shape x = [lin_nin L] \<Longrightarrow>
   dot x L = Inr \<lparr>shape = [lin_nout L], data = vecmat L (data x)\<rparr>"
  by (simp add: dot_def chunk_def vecmat_take)

lemma Linear_call_vec_nobias:
  "shape x = [lin_nin L] \<Longrightarrow> lin_b L = None \<Longrightarrow>
   Linear_call L x = Inr \<lparr>shape = [lin_nout L], data = vecmat L (data x)\<rparr>"
  by (simp add: Linear_call_def dot_vec)

lemma Linear_call_vec_bias:
  "shape x = [lin_nin L] \<Longrightarrow> lin_b L = Some B \<Longrightarrow>
   Linear_call L x =
     Inr \<lparr>shape = [lin_nout L],
          data = map (\<lambda>j. vecmat L (data x) ! j + B j) [0..<lin_nout L]\<rparr>"
  by (simp add: Linear_call_def dot_vec add_vec bias_tensor_def)

lemma chunk_concat_uniform:
  "(\<And>ys. ys \<in> set xss \<Longrightarrow> length ys = m) \<Longrightarrow> i < length xss \<Longrightarrow> chunk m i (concat xss) = xss ! i"
proof (induction xss arbitrary: i)
  case Nil
  then show ?case by simp
next
  case (Cons a xss)
  have la: "length a = m" using Cons.prems(1) by simp
  show ?case
  proof (cases i)
    case 0
    then show ?thesis using la by (simp add: chunk_def)
  next
    case (Suc j)
    have "chunk m j (concat xss) = xss ! j"
      using Cons.IH [of j] Cons.prems Suc by simp
    then show ?thesis using la Suc by (simp add: chunk_def)
  qed
qed

lemma chunk_concat_map:
  "(\<And>k. k < T \<Longrightarrow> length (g k) = m) \<Longrightarrow> i < T \<Longrightarrow> chunk m i (concat (map g [0..<T])) = g i"
proof -
  assume len: "\<And>k. k < T \<Longrightarrow> length (g k) = m" and i: "i < T"
  have "\<And>ys. ys \<in> set (map g [0..<T]) \<Longrightarrow> length ys = m" using len by auto
  then have "chunk m i (concat (map g [0..<T])) = map g [0..<T] ! i"
    using i by (intro chunk_concat_uniform) simp_all
  then show ?thesis using i by simp
qed

lemma getitem_nat: "shape t = T # s \<Longrightarrow> i < T \<Longrightarrow> getitem t (int i) = Inr (row t i)"
  by (simp add: getitem_def)

lemma dot_mat:
  "shape x = [T, lin_nin L] \<Longrightarrow>
   dot x L = Inr \<lparr>shape = [T, lin_nout L],
                  data = concat (map (\<lambda>i. vecmat L (chunk (lin_nin L) i (data x))) [0..<T])\<rparr>"
  by (simp add: dot_def)

lemma row_mat: "shape x = [T, n] \<Longrightarrow> row x i = \<lparr>shape = [n], data = chunk n i (data x)\<rparr>"
  by (simp add: row_def)

lemma Linear_call_rows:
  assumes "shape x = [T, lin_nin L]" and "lin_b L = None"
  shows "\<exists>fac. Linear_call L x = Inr fac \<and> shape fac = [T, lin_nout L] \<and>
           (\<forall>i<T. getitem fac (int i) = Linear_call L (row x i))"
proof -
  let ?fac = "\<lparr>shape = [T, lin_nout L],
                data = concat (map (\<lambda>i. vecmat L (chunk (lin_nin L) i (data x))) [0..<T])\<rparr>"
  have 1: "Linear_call L x = Inr ?fac"
    using assms by (simp add: Linear_call_def dot_mat)
  have 2: "getitem ?fac (int i) = Linear_call L (row x i)" if "i < T" for i
  proof -
    have "row ?fac i = \<lparr>shape = [lin_nout L], data = vecmat L (chunk (lin_nin L) i (data x))\<rparr>"
      using that by (simp add: row_def chunk_concat_map)
    moreover have "Linear_call L (row x i) =
        Inr \<lparr>shape = [lin_nout L], data = vecmat L (chunk (lin_nin L) i (data x))\<rparr>"
      using Linear_call_vec_nobias [of "row x i" L] assms by (simp add: row_mat)
    ultimately show ?thesis using that by (simp add: getitem_nat)
  qed
  show ?thesis using 1 2 by simp
qed

section \<open>Properties of the cells\<close>

lemma DDLRnnCell_call_vec:
  assumes "shape state = [ns]" and "shape x = [n]"
  shows "DDLRnnCell_call (DDLRnnCell_init n ns act Wxh Whh Bhh) state x =
           Inr \<lparr>shape = [ns], data = elman_update act n ns Wxh Whh Bhh (data state) (data x)\<rparr>"
proof -
  let ?c = "DDLRnnCell_init n ns act Wxh Whh Bhh"
  have hh: "Linear_call (whh ?c) state =
      Inr \<lparr>shape = [ns], data = map (\<lambda>j. vecmat (whh ?c) (data state) ! j + Bhh j) [0..<ns]\<rparr>"
    using Linear_call_vec_bias [of state "whh ?c" Bhh] assms(1)
    by (simp add: DDLRnnCell_init_def Linear_init_def)
  have xh: "Linear_call (wxh ?c) x = Inr \<lparr>shape = [ns], data = vecmat (wxh ?c) (data x)\<rparr>"
    using Linear_call_vec_nobias [of x "wxh ?c"] assms(2)
    by (simp add: DDLRnnCell_init_def Linear_init_def)
  show ?thesis
    unfolding DDLRnnCell_call_def hh xh
    by (simp add: add_vec apply_activation_def elman_update_def vecmat_def
        DDLRnnCell_init_def Linear_init_def)
qed

lemma length_elman_update [simp]: "length (elman_update act n ns Wxh Whh Bhh s x) = ns"
  by (simp add: elman_update_def)

text \<open>One pass of the loop body is one update of the cell with the same weights.\<close>

lemma factorized_loop_step:
  assumes "getitem fac (int i) = Linear_call (win c) xi"
    and "wxh d = win c" and "whh d = wn c" and "d_activation d = f_activation c"
  shows "factorized_loop c fac (i # js) state acc =
           (case DDLRnnCell_call d state xi of
              Inl e \<Rightarrow> Inl e
            | Inr s' \<Rightarrow>
                (case reshape s' [1, nstate c] of
                   Inl e \<Rightarrow> Inl e
                 | Inr output_i \<Rightarrow> factorized_loop c fac js s' (acc @ [output_i])))"
  using assms by (simp add: DDLRnnCell_call_def Let_def split: sum.splits)

lemma factorized_loop_run_steps:
  fixes c :: "('a::{zero,plus,times}) FactorizedRnnCell"
  assumes c: "c = (FactorizedRnnCell_init n ns act Wxh Whh Bhh)\<lparr>factor := fc\<rparr>"
    and d: "d = DDLRnnCell_init n ns act Wxh Whh Bhh"
    and x: "shape x = [T, n]"
    and fac: "\<forall>i<T. getitem fac (int i) = Linear_call (win c) (row x i)"
  shows "set js \<subseteq> {..<T} \<Longrightarrow> shape state = [ns] \<Longrightarrow>
         \<exists>s' outs. run_steps (DDLRnnCell_call d) state (map (row x) js) = Inr s' \<and>
            shape s' = [ns] \<and>
            factorized_loop c fac js state acc = Inr (s', acc @ outs) \<and>
            length outs = length js \<and> list_all (\<lambda>u. shape u = [1, ns]) outs \<and>
            length (data s') = (if js = [] then length (data state) else ns)"
proof (induction js arbitrary: state acc)
  case Nil
  then show ?case by simp
next
  case (Cons i js)
  have i: "i < T" and rest: "set js \<subseteq> {..<T}" using Cons.prems(1) by auto
  have fields: "wxh d = win c" "whh d = wn c" "d_activation d = f_activation c" "nstate c = ns"
    by (simp_all add: c d FactorizedRnnCell_init_def DDLRnnCell_init_def)
  let ?s1 = "\<lparr>shape = [ns],
      data = elman_update act n ns Wxh Whh Bhh (data state) (data (row x i))\<rparr>"
  have step: "DDLRnnCell_call d state (row x i) = Inr ?s1"
    unfolding d using Cons.prems(2) x by (intro DDLRnnCell_call_vec) (simp_all add: row_def)
  have rs: "reshape ?s1 [1, ns] = Inr \<lparr>shape = [1, ns], data = data ?s1\<rparr>"
    by (simp add: reshape_def)
  let ?o1 = "\<lparr>shape = [1, ns], data = data ?s1\<rparr>"
  have loop: "factorized_loop c fac (i # js) state acc =
      factorized_loop c fac js ?s1 (acc @ [?o1])"
    using factorized_loop_step [OF _ fields(1-3), of fac i "row x i" js state acc]
      fac i step rs fields(4) by simp
  obtain s' outs where IH:
    "run_steps (DDLRnnCell_call d) ?s1 (map (row x) js) = Inr s'" "shape s' = [ns]"
    "factorized_loop c fac js ?s1 (acc @ [?o1]) = Inr (s', (acc @ [?o1]) @ outs)"
    "length outs = length js" "list_all (\<lambda>u. shape u = [1, ns]) outs"
    "length (data s') = (if js = [] then length (data ?s1) else ns)"
    using Cons.IH [OF rest, of ?s1 "acc @ [?o1]"] by auto
  show ?case
    apply (rule exI [of _ s'])
    apply (rule exI [of _ "?o1 # outs"])
    using IH step loop by simp
qed

lemma concatenate_uniform:
  "ts \<noteq> [] \<Longrightarrow> list_all (\<lambda>u. shape u = m # s) ts \<Longrightarrow> \<exists>r. concatenate ts = Inr r"
  by (cases ts) (auto simp: concatenate_def list_all_iff)

text \<open>
  The whole-sequence call on a non-empty sequence: the loop is the step-by-step run of
  the two-weight cell with the same weights, whatever the cache held before.
\<close>

lemma factorized_cell_final:
  fixes state :: "('a::{zero,plus,times}) tensor"
  assumes "shape state = [ns]" and "shape x = [T, n]" and "0 < T"
  shows "\<exists>s'. run_steps (DDLRnnCell_call (DDLRnnCell_init n ns act Wxh Whh Bhh)) state
                 (map (row x) [0..<T]) = Inr s' \<and>
              shape s' = [ns] \<and> length (data s') = ns \<and>
              fst (FactorizedRnnCell_call
                     ((FactorizedRnnCell_init n ns act Wxh Whh Bhh)\<lparr>factor := fc\<rparr>) state x)
                = Inr \<lparr>shape = [1, ns], data = data s'\<rparr>"
proof -
  let ?c = "(FactorizedRnnCell_init n ns act Wxh Whh Bhh)\<lparr>factor := fc\<rparr>"
  let ?d = "DDLRnnCell_init n ns act Wxh Whh Bhh"
  have win: "lin_nin (win ?c) = n" "lin_b (win ?c) = None" "nstate ?c = ns"
    by (simp_all add: FactorizedRnnCell_init_def Linear_init_def)
  obtain fac where fac: "Linear_call (win ?c) x = Inr fac"
    "\<forall>i<T. getitem fac (int i) = Linear_call (win ?c) (row x i)"
    using Linear_call_rows [of x T "win ?c"] assms(2) win by auto
  let ?c' = "?c\<lparr>factor := Some fac\<rparr>"
  have c': "?c' = (FactorizedRnnCell_init n ns act Wxh Whh Bhh)\<lparr>factor := Some fac\<rparr>"
    by simp
  have fac': "\<forall>i<T. getitem fac (int i) = Linear_call (win ?c') (row x i)"
    using fac(2) by simp
  have sub: "set [0..<T] \<subseteq> {..<T}" by auto
  obtain s' outs where run:
    "run_steps (DDLRnnCell_call ?d) state (map (row x) [0..<T]) = Inr s'" "shape s' = [ns]"
    "factorized_loop ?c' fac [0..<T] state [] = Inr (s', [] @ outs)"
    "length outs = length [0..<T]" "list_all (\<lambda>u. shape u = [1, ns]) outs"
    "length (data s') = (if [0..<T] = [] then length (data state) else ns)"
    using factorized_loop_run_steps [OF c' refl assms(2) fac' sub assms(1), of "[]"]
    by blast
  have "outs \<noteq> []" using run(4) assms(3) by auto
  then obtain r where r: "concatenate outs = Inr r"
    using concatenate_uniform [of outs 1 "[ns]"] run(5) by auto
  have len: "length (data s') = ns" using run(6) assms(3) by simp
  have "fst (FactorizedRnnCell_call ?c state x) = Inr \<lparr>shape = [1, ns], data = data s'\<rparr>"
    using fac(1) assms(2) run(2,3) r win(3)
    by (simp add: FactorizedRnnCell_call_def Let_def reshape_def)
  then show ?thesis using run(1,2) len by blast
qed

section \<open>The canonical cell computes the Elman update\<close>

text \<open>
  C3. For every state vector of dimension \<open>nstate\<close> and input vector of dimension
  \<open>nin\<close>, the update of a \<open>DDLRnnCell\<close> built for these dimensions succeeds and returns
  the vector \<open>activation(W_hh * state + b + W_xh * input)\<close>: the biased affine transform
  of the state plus the unbiased affine transform of the input, element by element,
  through the activation.
\<close>

theorem DDLRnnCell_call_elman:
  assumes "shape state = [ns]" and "shape x = [n]"
  shows "DDLRnnCell_call (DDLRnnCell_init n ns act Wxh Whh Bhh) state x =
           Inr \<lparr>shape = [ns], data = elman_update act n ns Wxh Whh Bhh (data state) (data x)\<rparr>"
  using assms by (rule DDLRnnCell_call_vec)

theorem DDLRnnCell_call_elman_witness:
  "shape \<lparr>shape = [2], data = [1, 2::int]\<rparr> = [2] \<and>
   shape \<lparr>shape = [1], data = [3::int]\<rparr> = [1] \<and>
   DDLRnnCell_call
      (DDLRnnCell_init 1 2 (\<lambda>v. 2 * v) (\<lambda>k j. 1 + int j) (\<lambda>k j. int k + int j) (\<lambda>j. 10))
      \<lparr>shape = [2], data = [1, 2]\<rparr> \<lparr>shape = [1], data = [3]\<rparr>
     = Inr \<lparr>shape = [2], data = [30, 42]\<rparr>"
  using DDLRnnCell_call_elman [of "\<lparr>shape = [2], data = [1, 2::int]\<rparr>" 2
      "\<lparr>shape = [1], data = [3::int]\<rparr>" 1
      "\<lambda>v. 2 * v" "\<lambda>k j. 1 + int j" "\<lambda>k j. int k + int j" "\<lambda>j. 10"]
  by (simp add: elman_update_def lsum_def upt_rec numeral_eq_Suc)

section \<open>The factorized cell against the canonical cell\<close>

text \<open>A small run on integers, used to instantiate the theorems below.\<close>

lemma example_run:
  "run_steps
     (DDLRnnCell_call
        (DDLRnnCell_init 1 2 (\<lambda>v. 2 * v) (\<lambda>k j. 1 + int j) (\<lambda>k j. int k + int j) (\<lambda>j. 10)))
     \<lparr>shape = [2], data = [1, 2]\<rparr> (map (row \<lparr>shape = [2, 1], data = [3, 4]\<rparr>) [0..<2])
   = Inr \<lparr>shape = [2], data = [112, 264]\<rparr>"
  by (simp add: upt_rec numeral_eq_Suc row_def chunk_def DDLRnnCell_call_vec elman_update_def lsum_def)

lemma example_output_layer:
  "Linear_call (Linear_init 2 1 (\<lambda>k j. 1) (Some (\<lambda>j. 5))) \<lparr>shape = [1, 2], data = [112, 264::int]\<rparr>
     = Inr \<lparr>shape = [1, 1], data = [381]\<rparr>"
  by (simp add: Linear_call_def Linear_init_def dot_def add_def bias_tensor_def
      broadcast_shapes_def vecmat_def lsum_def chunk_def upt_rec numeral_eq_Suc)

text \<open>
  C1. For every initial state of dimension \<open>nstate\<close> and every non-empty input sequence
  of \<open>T\<close> elements of dimension \<open>nin\<close>, with the same weights in both cells (the same
  input transform without bias, the same state transform with bias, the same
  activation) and whatever the factor cache held before, the whole-sequence call of the
  \<open>FactorizedRnnCell\<close> succeeds and returns the reshape to \<open>(1, nstate)\<close> of the state
  that \<open>T\<close> one-step updates of the \<open>DDLRnnCell\<close>, applied to the elements in order from
  the same initial state, end in.
\<close>

theorem factorized_equals_sequential:
  fixes state :: "('a::{zero,plus,times}) tensor"
  assumes "shape state = [ns]" and "shape x = [T, n]" and "0 < T"
  shows "\<exists>s'. run_steps (DDLRnnCell_call (DDLRnnCell_init n ns act Wxh Whh Bhh)) state
                 (map (row x) [0..<T]) = Inr s' \<and>
              fst (FactorizedRnnCell_call
                     ((FactorizedRnnCell_init n ns act Wxh Whh Bhh)\<lparr>factor := fc\<rparr>) state x)
                = reshape s' [1, ns] \<and>
              reshape s' [1, ns] = Inr \<lparr>shape = [1, ns], data = data s'\<rparr>"
proof -
  obtain s' where s':
    "run_steps (DDLRnnCell_call (DDLRnnCell_init n ns act Wxh Whh Bhh)) state
       (map (row x) [0..<T]) = Inr s'"
    "shape s' = [ns]"
    "fst (FactorizedRnnCell_call
            ((FactorizedRnnCell_init n ns act Wxh Whh Bhh)\<lparr>factor := fc\<rparr>) state x)
       = Inr \<lparr>shape = [1, ns], data = data s'\<rparr>"
    using factorized_cell_final [OF assms, of act Wxh Whh Bhh fc] by blast
  have "reshape s' [1, ns] = Inr \<lparr>shape = [1, ns], data = data s'\<rparr>"
    using s'(2) by (simp add: reshape_def)
  then show ?thesis using s'(1,3) by auto
qed

theorem factorized_equals_sequential_witness:
  "shape \<lparr>shape = [2], data = [1, 2::int]\<rparr> = [2] \<and>
   shape \<lparr>shape = [2, 1], data = [3, 4::int]\<rparr> = [2, 1] \<and> (0::nat) < 2 \<and>
   fst (FactorizedRnnCell_call
          ((FactorizedRnnCell_init 1 2 (\<lambda>v. 2 * v) (\<lambda>k j. 1 + int j) (\<lambda>k j. int k + int j)
              (\<lambda>j. 10))\<lparr>factor := None\<rparr>)
          \<lparr>shape = [2], data = [1, 2]\<rparr> \<lparr>shape = [2, 1], data = [3, 4]\<rparr>)
     = Inr \<lparr>shape = [1, 2], data = [112, 264]\<rparr>"
  using factorized_equals_sequential [of "\<lparr>shape = [2], data = [1, 2::int]\<rparr>" 2
      "\<lparr>shape = [2, 1], data = [3, 4::int]\<rparr>" 2 1
      "\<lambda>v. 2 * v" "\<lambda>k j. 1 + int j" "\<lambda>k j. int k + int j" "\<lambda>j. 10" None]
  unfolding example_run by (auto simp: reshape_def)

section \<open>The factorized driver\<close>

text \<open>
  C4. For every initial state of dimension \<open>nstate\<close> and every non-empty input sequence
  of elements of dimension \<open>nin\<close>, \<open>FactorizedRNN.__call__\<close> returns a pair: its first
  component is the output layer applied once, to the single final state of shape
  \<open>(1, nstate)\<close> that the one whole-sequence call of the cell returns; its second
  component is that final state as a vector, and it is the state that the step-by-step
  run of the same recurrence ends in. With a failing output layer the call fails with
  the layer's error.
\<close>

theorem FactorizedRNN_call_result:
  fixes state :: "('a::{zero,plus,times}) tensor"
  assumes "shape state = [ns]" and "shape x = [T, n]" and "0 < T"
  shows "\<exists>s'. run_steps (DDLRnnCell_call (DDLRnnCell_init n ns act Wxh Whh Bhh)) state
                 (map (row x) [0..<T]) = Inr s' \<and>
              fst (FactorizedRnnCell_call
                     ((FactorizedRnnCell_init n ns act Wxh Whh Bhh)\<lparr>factor := fc\<rparr>) state x)
                = Inr \<lparr>shape = [1, ns], data = data s'\<rparr> \<and>
              fst (FactorizedRNN_call
                     (FactorizedRNN_init
                        ((FactorizedRnnCell_init n ns act Wxh Whh Bhh)\<lparr>factor := fc\<rparr>) ol)
                     x state)
                = (case ol \<lparr>shape = [1, ns], data = data s'\<rparr> of
                     Inl e \<Rightarrow> Inl e
                   | Inr output \<Rightarrow> Inr (output, s'))"
proof -
  let ?c = "(FactorizedRnnCell_init n ns act Wxh Whh Bhh)\<lparr>factor := fc\<rparr>"
  obtain s' where s':
    "run_steps (DDLRnnCell_call (DDLRnnCell_init n ns act Wxh Whh Bhh)) state
       (map (row x) [0..<T]) = Inr s'"
    "shape s' = [ns]" "length (data s') = ns"
    "fst (FactorizedRnnCell_call ?c state x) = Inr \<lparr>shape = [1, ns], data = data s'\<rparr>"
    using factorized_cell_final [OF assms, of act Wxh Whh Bhh fc] by blast
  let ?out = "\<lparr>shape = [1, ns], data = data s'\<rparr>"
  have "row ?out 0 = \<lparr>shape = [ns], data = data s'\<rparr>"
    using s'(3) by (simp add: row_def chunk_def)
  also have "\<dots> = s'" using s'(2) by simp
  finally have last: "getitem ?out (- 1) = Inr s'"
    by (simp add: getitem_def)
  have "fst (FactorizedRNN_call (FactorizedRNN_init ?c ol) x state)
      = (case ol ?out of Inl e \<Rightarrow> Inl e | Inr output \<Rightarrow> Inr (output, s'))"
  proof -
    obtain res c' where call: "FactorizedRnnCell_call ?c state x = (res, c')"
      by (cases "FactorizedRnnCell_call ?c state x")
    then have "res = Inr ?out" using s'(4) by simp
    then show ?thesis using call last
      by (simp add: FactorizedRNN_call_def FactorizedRNN_init_def split: sum.splits)
  qed
  then show ?thesis using s'(1,4) by blast
qed

theorem FactorizedRNN_call_result_witness:
  "shape \<lparr>shape = [2], data = [1, 2::int]\<rparr> = [2] \<and>
   shape \<lparr>shape = [2, 1], data = [3, 4::int]\<rparr> = [2, 1] \<and> (0::nat) < 2 \<and>
   fst (FactorizedRNN_call
          (FactorizedRNN_init
             ((FactorizedRnnCell_init 1 2 (\<lambda>v. 2 * v) (\<lambda>k j. 1 + int j)
                 (\<lambda>k j. int k + int j) (\<lambda>j. 10))\<lparr>factor := None\<rparr>)
             (Linear_call (Linear_init 2 1 (\<lambda>k j. 1) (Some (\<lambda>j. 5)))))
          \<lparr>shape = [2, 1], data = [3, 4]\<rparr> \<lparr>shape = [2], data = [1, 2]\<rparr>)
     = Inr (\<lparr>shape = [1, 1], data = [381]\<rparr>, \<lparr>shape = [2], data = [112, 264]\<rparr>)"
proof -
  have "shape \<lparr>shape = [2], data = [1, 2::int]\<rparr> = [2]"
    and "shape \<lparr>shape = [2, 1], data = [3, 4::int]\<rparr> = [2, 1]" and "(0::nat) < 2"
    by simp_all
  from FactorizedRNN_call_result [OF this, of "\<lambda>v. 2 * v" "\<lambda>k j. 1 + int j"
      "\<lambda>k j. int k + int j" "\<lambda>j. 10" None
      "Linear_call (Linear_init 2 1 (\<lambda>k j. 1) (Some (\<lambda>j. 5)))"]
  obtain s' where s': "Inr \<lparr>shape = [2], data = [112, 264]\<rparr> = Inr s'"
    and call: "fst (FactorizedRNN_call
          (FactorizedRNN_init
             ((FactorizedRnnCell_init 1 2 (\<lambda>v. 2 * v) (\<lambda>k j. 1 + int j)
                 (\<lambda>k j. int k + int j) (\<lambda>j. 10))\<lparr>factor := None\<rparr>)
             (Linear_call (Linear_init 2 1 (\<lambda>k j. 1) (Some (\<lambda>j. 5)))))
          \<lparr>shape = [2, 1], data = [3, 4]\<rparr> \<lparr>shape = [2], data = [1, 2]\<rparr>)
      = (case Linear_call (Linear_init 2 1 (\<lambda>k j. 1) (Some (\<lambda>j. 5)))
                \<lparr>shape = [1, 2], data = data s'\<rparr> of
           Inl e \<Rightarrow> Inl e
         | Inr output \<Rightarrow> Inr (output, s'))"
    unfolding example_run by blast
  from s' have "s' = \<lparr>shape = [2], data = [112, 264]\<rparr>" by simp
  with call show ?thesis by (simp add: example_output_layer [simplified])
qed

section \<open>The empty sequence\<close>

text \<open>
  C9. For an empty input sequence (leading axis of extent 0) the whole-sequence call of
  the \<open>FactorizedRnnCell\<close> fails: either the input transform rejects the input, or the
  loop runs no pass, the list of per-step outputs is empty and its concatenation raises.
  It does not return the initial state.
\<close>

theorem factorized_empty_sequence_fails:
  assumes "shape x = 0 # s"
  shows "fst (FactorizedRnnCell_call c state x) =
           (case Linear_call (win c) x of Inl e \<Rightarrow> Inl e | Inr fac \<Rightarrow> Inl ValueError)"
  using assms
  by (simp add: FactorizedRnnCell_call_def Let_def concatenate_def split: sum.splits)

theorem factorized_empty_sequence_fails_witness:
  "shape \<lparr>shape = [0, 1], data = ([]::int list)\<rparr> = 0 # [1] \<and>
   fst (FactorizedRnnCell_call
          (FactorizedRnnCell_init 1 2 (\<lambda>v. 2 * v) (\<lambda>k j. 1 + int j) (\<lambda>k j. int k + int j)
             (\<lambda>j. 10))
          \<lparr>shape = [2], data = [1, 2]\<rparr> \<lparr>shape = [0, 1], data = []\<rparr>) = Inl ValueError"
  using factorized_empty_sequence_fails [of "\<lparr>shape = [0, 1], data = ([]::int list)\<rparr>" "[1]"
      "FactorizedRnnCell_init 1 2 (\<lambda>v. 2 * v) (\<lambda>k j. 1 + int j) (\<lambda>k j. int k + int j)
             (\<lambda>j. 10)" "\<lparr>shape = [2], data = [1, 2]\<rparr>"]
  by (simp add: FactorizedRnnCell_init_def Linear_init_def Linear_call_def dot_def)

section \<open>Shape checks of the cells\<close>

lemma concatenate_two_vectors:
  "shape x = [a] \<Longrightarrow> shape y = [b] \<Longrightarrow>
   concatenate [x, y] = Inr \<lparr>shape = [a + b], data = data x @ data y\<rparr>"
  by (simp add: concatenate_def)

lemma Linear_call_last_mismatch:
  "shape x = [] \<or> last (shape x) \<noteq> lin_nin L \<Longrightarrow> Linear_call L x = Inl ShapeError"
  by (auto simp: Linear_call_def dot_def)

text \<open>
  C8. \<open>MyRnnCell\<close> checks only the length of the concatenation of input and state:
  for vectors \<open>x\<close> and \<open>state\<close> whose lengths sum to \<open>nin + nstate\<close> the update succeeds
  and returns a vector of dimension \<open>nstate\<close>, also when neither length is the declared
  one.
\<close>

theorem MyRnnCell_checks_concatenation_only:
  fixes state :: "('a::{zero,plus,times}) tensor"
  assumes "shape x = [a]" and "shape state = [b]" and "a + b = n + ns"
  shows "\<exists>r. MyRnnCell_call (MyRnnCell_init n ns act W1 B1 W2 B2) state x = Inr r \<and>
             shape r = [ns] \<and> length (data r) = ns"
proof -
  let ?c = "MyRnnCell_init n ns act W1 B1 W2 B2"
  have cat: "concatenate [x, state] = Inr \<lparr>shape = [n + ns], data = data x @ data state\<rparr>"
    using concatenate_two_vectors [OF assms(1,2)] assms(3) by simp
  let ?v = "\<lparr>shape = [n + ns], data = data x @ data state\<rparr>"
  obtain h where h: "Linear_call (op_linear1 ?c) ?v = Inr h" "shape h = [ns]"
    using Linear_call_vec_bias [of ?v "op_linear1 ?c" B1]
    by (simp add: MyRnnCell_init_def Linear_init_def)
  obtain y where y: "Linear_call (op_linear2 ?c) h = Inr y" "shape y = [ns]"
    "length (data y) = ns"
    using Linear_call_vec_bias [of h "op_linear2 ?c" B2] h(2)
    by (simp add: MyRnnCell_init_def Linear_init_def)
  show ?thesis
    using cat h y by (simp add: MyRnnCell_call_def apply_activation_def)
qed

theorem MyRnnCell_checks_concatenation_only_witness:
  "shape \<lparr>shape = [2], data = [1, 3::int]\<rparr> = [2] \<and>
   shape \<lparr>shape = [1], data = [4::int]\<rparr> = [1] \<and> (2::nat) + 1 = 1 + 2 \<and>
   (\<exists>r. MyRnnCell_call
          (MyRnnCell_init 1 2 (\<lambda>v. 2 * v) (\<lambda>k j. int k + int j) (\<lambda>j. 1) (\<lambda>k j. 1 + int j)
             (\<lambda>j. 10))
          \<lparr>shape = [1], data = [4]\<rparr> \<lparr>shape = [2], data = [1, 3]\<rparr> = Inr r \<and>
        shape r = [2] \<and> length (data r) = 2)"
  using MyRnnCell_checks_concatenation_only [of "\<lparr>shape = [2], data = [1, 3::int]\<rparr>" 2
      "\<lparr>shape = [1], data = [4::int]\<rparr>" 1 1 2
      "\<lambda>v. 2 * v" "\<lambda>k j. int k + int j" "\<lambda>j. 1" "\<lambda>k j. 1 + int j" "\<lambda>j. 10"]
  by simp

text \<open>
  C5. A cell built for input dimension \<open>nin\<close> and state dimension \<open>nstate\<close> (for
  instance 3 and 10), called with an input of another length (for instance 4) and a
  state of length \<open>nstate\<close>, fails with a shape error: \<open>MyRnnCell\<close> and \<open>DDLRnnCell\<close> on
  an input vector of the wrong length, \<open>FactorizedRnnCell\<close> on a sequence of such
  vectors. Nothing is broadcast or truncated.
\<close>

theorem cell_wrong_input_length_fails:
  fixes state :: "('a::{zero,plus,times}) tensor"
  assumes "shape x = [m]" and "m \<noteq> n" and "shape state = [ns]" and "shape xs = [T, m]"
  shows "MyRnnCell_call (MyRnnCell_init n ns act W1 B1 W2 B2) state x = Inl ShapeError \<and>
         DDLRnnCell_call (DDLRnnCell_init n ns act Wxh Whh Bhh) state x = Inl ShapeError \<and>
         fst (FactorizedRnnCell_call
                ((FactorizedRnnCell_init n ns act Wxh Whh Bhh)\<lparr>factor := fc\<rparr>) state xs)
           = Inl ShapeError"
proof -
  have cat: "concatenate [x, state] = Inr \<lparr>shape = [m + ns], data = data x @ data state\<rparr>"
    using concatenate_two_vectors [OF assms(1,3)] .
  have my: "MyRnnCell_call (MyRnnCell_init n ns act W1 B1 W2 B2) state x = Inl ShapeError"
    using assms(2) cat
    by (simp add: MyRnnCell_call_def MyRnnCell_init_def Linear_init_def Linear_call_last_mismatch)
  have hh: "\<exists>a. Linear_call (Linear_init ns ns Whh (Some Bhh)) state = Inr a"
    using Linear_call_vec_bias [of state "Linear_init ns ns Whh (Some Bhh)" Bhh] assms(3)
    by (simp add: Linear_init_def)
  have ddl: "DDLRnnCell_call (DDLRnnCell_init n ns act Wxh Whh Bhh) state x = Inl ShapeError"
    using assms(1,2) hh
    by (auto simp: DDLRnnCell_call_def DDLRnnCell_init_def Linear_call_last_mismatch Linear_init_def)
  have fac: "fst (FactorizedRnnCell_call
                ((FactorizedRnnCell_init n ns act Wxh Whh Bhh)\<lparr>factor := fc\<rparr>) state xs)
           = Inl ShapeError"
    using assms(2,4)
    by (simp add: FactorizedRnnCell_call_def FactorizedRnnCell_init_def Linear_init_def
        Linear_call_last_mismatch)
  show ?thesis using my ddl fac by simp
qed

theorem cell_wrong_input_length_fails_witness:
  "shape \<lparr>shape = [4], data = [1, 2, 3, 4::int]\<rparr> = [4] \<and> (4::nat) \<noteq> 3 \<and>
   shape \<lparr>shape = [10], data = replicate 10 (0::int)\<rparr> = [10] \<and>
   shape \<lparr>shape = [2, 4], data = [1, 2, 3, 4, 5, 6, 7, 8::int]\<rparr> = [2, 4] \<and>
   MyRnnCell_call (MyRnnCell_init 3 10 (\<lambda>v. v) (\<lambda>k j. 1) (\<lambda>j. 0) (\<lambda>k j. 1) (\<lambda>j. 0))
      \<lparr>shape = [10], data = replicate 10 0\<rparr> \<lparr>shape = [4], data = [1, 2, 3, 4::int]\<rparr>
     = Inl ShapeError \<and>
   DDLRnnCell_call (DDLRnnCell_init 3 10 (\<lambda>v. v) (\<lambda>k j. 1) (\<lambda>k j. 1) (\<lambda>j. 0))
      \<lparr>shape = [10], data = replicate 10 0\<rparr> \<lparr>shape = [4], data = [1, 2, 3, 4::int]\<rparr>
     = Inl ShapeError \<and>
   fst (FactorizedRnnCell_call
          ((FactorizedRnnCell_init 3 10 (\<lambda>v. v) (\<lambda>k j. 1) (\<lambda>k j. 1) (\<lambda>j. 0))\<lparr>factor := None\<rparr>)
          \<lparr>shape = [10], data = replicate 10 0\<rparr>
          \<lparr>shape = [2, 4], data = [1, 2, 3, 4, 5, 6, 7, 8::int]\<rparr>)
     = Inl ShapeError"
  using cell_wrong_input_length_fails [of "\<lparr>shape = [4], data = [1, 2, 3, 4::int]\<rparr>" 4 3
      "\<lparr>shape = [10], data = replicate 10 (0::int)\<rparr>" 10
      "\<lparr>shape = [2, 4], data = [1, 2, 3, 4, 5, 6, 7, 8::int]\<rparr>" 2
      "\<lambda>v. v" "\<lambda>k j. 1" "\<lambda>j. 0" "\<lambda>k j. 1" "\<lambda>j. 0" "\<lambda>k j. 1" "\<lambda>k j. 1" "\<lambda>j. 0" None]
  by simp

section \<open>The factor cache\<close>

lemma FactorizedRnnCell_call_snd:
  "snd (FactorizedRnnCell_call c state x) =
     c\<lparr>factor := (case Linear_call (win c) x of Inl e \<Rightarrow> factor c | Inr fac \<Rightarrow> Some fac)\<rparr>"
  by (simp add: FactorizedRnnCell_call_def Let_def split: sum.splits)

lemma FactorizedRnnCell_call_cache_irrelevant:
  "fst (FactorizedRnnCell_call (c\<lparr>factor := fc\<rparr>) state x) = fst (FactorizedRnnCell_call c state x)"
  by (simp add: FactorizedRnnCell_call_def Let_def split: sum.splits list.splits)

lemma FactorizedRNN_call_fst:
  "fst (FactorizedRNN_call r x state) =
     (case fst (FactorizedRnnCell_call (fac_cell r) state x) of
        Inl e \<Rightarrow> Inl e
      | Inr out \<Rightarrow>
          (case fac_output_layer r out of
             Inl e \<Rightarrow> Inl e
           | Inr output \<Rightarrow>
               (case getitem out (- 1) of
                  Inl e \<Rightarrow> Inl e
                | Inr final \<Rightarrow> Inr (output, final))))"
  by (simp add: FactorizedRNN_call_def split: prod.splits)

lemma FactorizedRNN_call_snd:
  "snd (FactorizedRNN_call r x state) = r\<lparr>fac_cell := snd (FactorizedRnnCell_call (fac_cell r) state x)\<rparr>"
  by (simp add: FactorizedRNN_call_def split: prod.splits)

section \<open>Arrays with a batch axis\<close>

lemma length_chunk: "(Suc i) * k \<le> length xs \<Longrightarrow> length (chunk k i xs) = k"
  by (simp add: chunk_def)

lemma chunk_chunk: "i < K \<Longrightarrow> chunk m i (chunk (K * m) j d) = chunk m (j * K + i) d"
proof -
  assume i: "i < K"
  then have "Suc i \<le> K" by simp
  then have "Suc i * m \<le> K * m" by (rule mult_le_mono1)
  then have le: "m \<le> K * m - i * m" by simp
  have "chunk m i (chunk (K * m) j d) = take m (take (K * m - i * m) (drop (i * m) (drop (j * (K * m)) d)))"
    by (simp add: chunk_def drop_take)
  also have "\<dots> = take m (drop (i * m + j * (K * m)) d)"
    using le by (simp add: min_absorb1)
  also have "i * m + j * (K * m) = (j * K + i) * m"
    by (simp add: algebra_simps)
  finally show ?thesis by (simp add: chunk_def)
qed

lemma chunk_map_upt:
  assumes "b < B"
  shows "chunk m b (map f [0..<B * m]) = map (\<lambda>j. f (b * m + j)) [0..<m]"
proof -
  have "Suc b \<le> B" using assms by simp
  then have "Suc b * m \<le> B * m" by (rule mult_le_mono1)
  then have le: "b * m + m \<le> B * m" by simp
  have "chunk m b (map f [0..<B * m]) = map f (take m (drop (b * m) [0..<B * m]))"
    by (simp add: chunk_def take_map drop_map)
  also have "take m (drop (b * m) [0..<B * m]) = [b * m..<b * m + m]"
    using le by (simp add: drop_upt take_upt)
  also have "[b * m..<b * m + m] = map (\<lambda>j. j + b * m) [0..<m]"
    unfolding map_add_upt by (simp only: add.commute)
  also have "map f (map (\<lambda>j. j + b * m) [0..<m]) = map (\<lambda>j. f (b * m + j)) [0..<m]"
    by (simp add: add.commute)
  finally show ?thesis .
qed

lemma bindex2_same: "i < B * m \<Longrightarrow> bindex [m, B] [m, B] i = i"
proof -
  assume i: "i < B * m"
  then have m: "0 < m" by (cases m) simp_all
  have d: "i div m < B" using i m by (simp add: less_mult_imp_div_less)
  then have q: "(if B = 1 then 0 else i div m mod B) = i div m" by auto
  have r: "(if m = 1 then 0 else i mod m) = i mod m" by auto
  have "bindex [m, B] [m, B] i = i mod m + m * (i div m)"
    using q r by simp
  then show ?thesis by simp
qed

lemma bindex2_bias: "bindex [m, B] [m] i = i mod m"
  by simp

lemmas bindex2 = bindex2_same bindex2_bias

lemma broadcast_mat_vec: "broadcast_shapes [B, m] [m] = Some [B, m]"
  by (simp add: broadcast_shapes_def)

lemma broadcast_mat_mat: "broadcast_shapes [B, m] [B, m] = Some [B, m]"
  by (simp add: broadcast_shapes_def)

lemma add_mat_vec:
  "shape y = [B, m] \<Longrightarrow> shape c = [m] \<Longrightarrow>
   add y c = Inr \<lparr>shape = [B, m], data = map (\<lambda>i. data y ! i + data c ! (i mod m)) [0..<B * m]\<rparr>"
  by (simp add: add_def broadcast_mat_vec bindex2 del: bindex.simps)

lemma add_mat_mat:
  "shape a = [B, m] \<Longrightarrow> shape c = [B, m] \<Longrightarrow>
   add a c = Inr \<lparr>shape = [B, m], data = map (\<lambda>i. data a ! i + data c ! i) [0..<B * m]\<rparr>"
  by (simp add: add_def broadcast_mat_mat bindex2_same del: bindex.simps)

lemma length_concat_map:
  "(\<And>k. k < B \<Longrightarrow> length (g k) = m) \<Longrightarrow> length (concat (map g [0..<B])) = B * m"
  by (induction B) simp_all

lemma nth_chunk: "j < m \<Longrightarrow> b * m + j < length xs \<Longrightarrow> chunk m b xs ! j = xs ! (b * m + j)"
  by (simp add: chunk_def)

lemma row_of_rows:
  assumes "\<And>k. k < B \<Longrightarrow> length (g k) = m" and "b < B"
  shows "row \<lparr>shape = [B, m], data = concat (map g [0..<B])\<rparr> b = \<lparr>shape = [m], data = g b\<rparr>"
  using assms by (simp add: row_def chunk_concat_map)

lemma index_in_range: "b < B \<Longrightarrow> j < m \<Longrightarrow> b * m + j < B * (m::nat)"
proof -
  assume b: "b < B" and j: "j < m"
  have "b * m + j < b * m + m" using j by simp
  also have "\<dots> = Suc b * m" by simp
  also have "\<dots> \<le> B * m" using b by (intro mult_le_mono1) simp
  finally show ?thesis .
qed

text \<open>An affine transform of a matrix is the affine transform of each of its rows.\<close>

lemma Linear_call_batch:
  fixes X :: "('a::{zero,plus,times}) tensor"
  assumes "shape X = [B, lin_nin L]"
  shows "\<exists>Y. Linear_call L X = Inr Y \<and> shape Y = [B, lin_nout L] \<and>
             length (data Y) = B * lin_nout L \<and>
             (\<forall>b<B. Linear_call L (row X b) = Inr (row Y b))"
proof -
  let ?n = "lin_nin L" and ?m = "lin_nout L"
  let ?g = "\<lambda>b. vecmat L (chunk ?n b (data X))"
  let ?yd = "concat (map ?g [0..<B])"
  have dot: "dot X L = Inr \<lparr>shape = [B, ?m], data = ?yd\<rparr>"
    using assms by (rule dot_mat)
  have len: "length ?yd = B * ?m" by (rule length_concat_map) simp
  have rowX: "row X b = \<lparr>shape = [?n], data = chunk ?n b (data X)\<rparr>" for b
    using assms by (rule row_mat)
  show ?thesis
  proof (cases "lin_b L")
    case None
    have "Linear_call L (row X b) = Inr (row \<lparr>shape = [B, ?m], data = ?yd\<rparr> b)" if "b < B" for b
      using that None by (simp add: row_of_rows rowX Linear_call_vec_nobias)
    then show ?thesis using None dot len by (simp add: Linear_call_def)
  next
    case (Some Bf)
    let ?f = "\<lambda>i. ?yd ! i + map Bf [0..<?m] ! (i mod ?m)"
    let ?Y = "\<lparr>shape = [B, ?m], data = map ?f [0..<B * ?m]\<rparr>"
    have call: "Linear_call L X = Inr ?Y"
      using Some dot by (simp add: Linear_call_def add_mat_vec bias_tensor_def)
    have "Linear_call L (row X b) = Inr (row ?Y b)" if b: "b < B" for b
    proof -
      have "row ?Y b = \<lparr>shape = [?m], data = map (\<lambda>j. ?f (b * ?m + j)) [0..<?m]\<rparr>"
        using b by (simp add: row_def chunk_map_upt)
      moreover have "?f (b * ?m + j) = vecmat L (chunk ?n b (data X)) ! j + Bf j" if j: "j < ?m" for j
      proof -
        have "b * ?m + j < length ?yd" using b j len by (simp add: index_in_range)
        then have "?yd ! (b * ?m + j) = chunk ?m b ?yd ! j" using j by (simp add: nth_chunk)
        also have "chunk ?m b ?yd = ?g b" using b by (intro chunk_concat_map) simp_all
        finally show ?thesis using j by simp
      qed
      ultimately have "row ?Y b =
          \<lparr>shape = [?m], data = map (\<lambda>j. vecmat L (chunk ?n b (data X)) ! j + Bf j) [0..<?m]\<rparr>"
        by simp
      then show ?thesis using Some by (simp add: rowX Linear_call_vec_bias)
    qed
    then show ?thesis using call by simp
  qed
qed

text \<open>The sum of two matrices of one shape is the sum of their rows.\<close>

lemma add_batch:
  fixes a :: "('a::plus) tensor"
  assumes "shape a = [B, m]" and "shape c = [B, m]"
    and "length (data a) = B * m" and "length (data c) = B * m"
  shows "\<exists>y. add a c = Inr y \<and> shape y = [B, m] \<and> length (data y) = B * m \<and>
             (\<forall>b<B. add (row a b) (row c b) = Inr (row y b))"
proof -
  let ?f = "\<lambda>i. data a ! i + data c ! i"
  let ?y = "\<lparr>shape = [B, m], data = map ?f [0..<B * m]\<rparr>"
  have sum: "add a c = Inr ?y" using assms(1,2) by (rule add_mat_mat)
  have "add (row a b) (row c b) = Inr (row ?y b)" if b: "b < B" for b
  proof -
    have "row ?y b = \<lparr>shape = [m], data = map (\<lambda>j. ?f (b * m + j)) [0..<m]\<rparr>"
      using b by (simp add: row_def chunk_map_upt)
    moreover have "add (row a b) (row c b) =
        Inr \<lparr>shape = [m], data = map (\<lambda>j. chunk m b (data a) ! j + chunk m b (data c) ! j) [0..<m]\<rparr>"
      using assms(1,2) by (simp add: add_vec row_mat)
    moreover have "chunk m b (data a) ! j + chunk m b (data c) ! j = ?f (b * m + j)"
      if "j < m" for j
      using that b assms(3,4) by (simp add: nth_chunk index_in_range)
    ultimately show ?thesis by simp
  qed
  then show ?thesis using sum by simp
qed

lemma row_apply_activation: "row (apply_activation f y) b = apply_activation f (row y b)"
  by (simp add: row_def apply_activation_def chunk_def take_map drop_map)

text \<open>One update of the canonical cell on a batch is the update of each batch element.\<close>

lemma DDLRnnCell_call_batch:
  fixes S :: "('a::{zero,plus,times}) tensor"
  assumes "shape S = [B, ns]" and "shape X = [B, n]"
  shows "\<exists>S1. DDLRnnCell_call (DDLRnnCell_init n ns act Wxh Whh Bhh) S X = Inr S1 \<and>
              shape S1 = [B, ns] \<and> length (data S1) = B * ns \<and>
              (\<forall>b<B. DDLRnnCell_call (DDLRnnCell_init n ns act Wxh Whh Bhh) (row S b) (row X b)
                       = Inr (row S1 b))"
proof -
  let ?d = "DDLRnnCell_init n ns act Wxh Whh Bhh"
  have f: "lin_nin (whh ?d) = ns" "lin_nout (whh ?d) = ns" "lin_nin (wxh ?d) = n"
    "lin_nout (wxh ?d) = ns" "d_activation ?d = act"
    by (simp_all add: DDLRnnCell_init_def Linear_init_def)
  obtain a where a: "Linear_call (whh ?d) S = Inr a" "shape a = [B, ns]"
    "length (data a) = B * ns" "\<forall>b<B. Linear_call (whh ?d) (row S b) = Inr (row a b)"
    using Linear_call_batch [of S B "whh ?d"] assms(1) f by auto
  obtain c where c: "Linear_call (wxh ?d) X = Inr c" "shape c = [B, ns]"
    "length (data c) = B * ns" "\<forall>b<B. Linear_call (wxh ?d) (row X b) = Inr (row c b)"
    using Linear_call_batch [of X B "wxh ?d"] assms(2) f by auto
  obtain y where y: "add a c = Inr y" "shape y = [B, ns]" "length (data y) = B * ns"
    "\<forall>b<B. add (row a b) (row c b) = Inr (row y b)"
    using add_batch [OF a(2) c(2) a(3) c(3)] by auto
  let ?S1 = "apply_activation act y"
  have "DDLRnnCell_call ?d S X = Inr ?S1"
    using a(1) c(1) y(1) f(5) by (simp add: DDLRnnCell_call_def)
  moreover have "shape ?S1 = [B, ns]" "length (data ?S1) = B * ns"
    using y(2,3) by (simp_all add: apply_activation_def)
  moreover have "\<forall>b<B. DDLRnnCell_call ?d (row S b) (row X b) = Inr (row ?S1 b)"
    using a(4) c(4) y(4) f(5) by (simp add: DDLRnnCell_call_def row_apply_activation)
  ultimately show ?thesis by blast
qed

text \<open>Row \<open>t\<close> of the transposed input holds, at batch position \<open>b\<close>, element \<open>t\<close> of sequence \<open>b\<close>.\<close>

lemma transpose102_rows:
  assumes "shape x = [B, T, n]" and "well_shaped x"
  shows "\<exists>xt. transpose102 x = Inr xt \<and> shape xt = [T, B, n] \<and>
           (\<forall>t<T. shape (row xt t) = [B, n] \<and> (\<forall>b<B. row (row xt t) b = row (row x b) t))"
proof -
  let ?g = "\<lambda>t b. chunk n (b * T + t) (data x)"
  let ?h = "\<lambda>t. concat (map (?g t) [0..<B])"
  let ?xt = "\<lparr>shape = [T, B, n], data = concat (map ?h [0..<T])\<rparr>"
  have tr: "transpose102 x = Inr ?xt" using assms(1) by (simp add: transpose102_def)
  have len: "length (data x) = B * T * n" using assms by (simp add: well_shaped_def)
  have lg: "length (?g t b) = n" if "t < T" "b < B" for t b
  proof -
    have "b * T + t < B * T" using that(2,1) by (rule index_in_range)
    then have "Suc (b * T + t) * n \<le> (B * T) * n" by (intro mult_le_mono1) simp
    then show ?thesis using len by (intro length_chunk) simp
  qed
  have lh: "length (?h t) = B * n" if "t < T" for t
    using that lg by (intro length_concat_map) simp
  have rows: "row (row ?xt t) b = row (row x b) t" if t: "t < T" and b: "b < B" for t b
  proof -
    have "row ?xt t = \<lparr>shape = [B, n], data = ?h t\<rparr>"
      using t lh by (simp add: row_def chunk_concat_map)
    then have "row (row ?xt t) b = \<lparr>shape = [n], data = ?g t b\<rparr>"
      using b t lg by (simp add: row_of_rows)
    moreover have "row (row x b) t = \<lparr>shape = [n], data = chunk n t (chunk (T * n) b (data x))\<rparr>"
      using assms(1) by (simp add: row_def)
    ultimately show ?thesis using t by (simp add: chunk_chunk)
  qed
  have "shape (row ?xt t) = [B, n]" for t by (simp add: row_def)
  then show ?thesis using tr rows by simp
qed

text \<open>The fold over a batch runs the fold of every batch element.\<close>

lemma single_batch:
  fixes S :: "('a::{zero,plus,times}) tensor"
  assumes "shape S = [B, ns]" and "shape X = [B, n]"
    and R: "R = \<lparr>rnn_cell = DDLRnnCell_call (DDLRnnCell_init n ns act Wxh Whh Bhh),
                 rnn_output_layer = Linear_call (output_layer ns nout Wo Bo)\<rparr>"
    and V: "V = \<lparr>vec_cell = DDLRnnCell_call (DDLRnnCell_init n ns act Wxh Whh Bhh),
                 vec_output_layer = Linear_call (output_layer ns nout Wo Bo)\<rparr>"
  shows "\<exists>S1 O1. RNN_single R S X = Inr (S1, O1) \<and>
           shape S1 = [B, ns] \<and> length (data S1) = B * ns \<and>
           shape O1 = [B, nout] \<and> length (data O1) = B * nout \<and>
           (\<forall>b<B. VectorizedRNN_single V (row S b) (row X b) = Inr (row S1 b, row O1 b))"
proof -
  let ?d = "DDLRnnCell_init n ns act Wxh Whh Bhh"
  let ?ol = "output_layer ns nout Wo Bo"
  have ol: "lin_nin ?ol = ns" "lin_nout ?ol = nout"
    by (simp_all add: output_layer_def Linear_init_def)
  obtain S1 where S1: "DDLRnnCell_call ?d S X = Inr S1" "shape S1 = [B, ns]"
    "length (data S1) = B * ns"
    "\<forall>b<B. DDLRnnCell_call ?d (row S b) (row X b) = Inr (row S1 b)"
    using DDLRnnCell_call_batch [OF assms(1,2), of act Wxh Whh Bhh] by blast
  obtain O1 where O1: "Linear_call ?ol S1 = Inr O1" "shape O1 = [B, nout]"
    "length (data O1) = B * nout" "\<forall>b<B. Linear_call ?ol (row S1 b) = Inr (row O1 b)"
    using Linear_call_batch [of S1 B ?ol] S1(2) ol by auto
  have "RNN_single R S X = Inr (S1, O1)"
    using S1(1) O1(1) by (simp add: RNN_single_def R)
  moreover have "\<forall>b<B. VectorizedRNN_single V (row S b) (row X b) = Inr (row S1 b, row O1 b)"
    using S1(4) O1(4) by (simp add: VectorizedRNN_single_def V)
  ultimately show ?thesis using S1(2,3) O1(2,3) by blast
qed

lemma scan_list_batch:
  fixes S :: "('a::{zero,plus,times}) tensor"
  assumes R: "R = \<lparr>rnn_cell = DDLRnnCell_call (DDLRnnCell_init n ns act Wxh Whh Bhh),
                 rnn_output_layer = Linear_call (output_layer ns nout Wo Bo)\<rparr>"
    and V: "V = \<lparr>vec_cell = DDLRnnCell_call (DDLRnnCell_init n ns act Wxh Whh Bhh),
                 vec_output_layer = Linear_call (output_layer ns nout Wo Bo)\<rparr>"
  shows "list_all (\<lambda>X. shape X = [B, n]) Xs \<Longrightarrow> shape S = [B, ns] \<Longrightarrow>
     \<exists>S' Os. scan_list (RNN_single R) S Xs = Inr (S', Os) \<and>
        shape S' = [B, ns] \<and> (Xs \<noteq> [] \<longrightarrow> length (data S') = B * ns) \<and>
        length Os = length Xs \<and>
        list_all (\<lambda>Y. shape Y = [B, nout] \<and> length (data Y) = B * nout) Os \<and>
        (\<forall>b<B. scan_list (VectorizedRNN_single V) (row S b) (map (\<lambda>X. row X b) Xs)
                  = Inr (row S' b, map (\<lambda>Y. row Y b) Os))"
proof (induction Xs arbitrary: S)
  case Nil
  then show ?case by simp
next
  case (Cons X Xs)
  have X: "shape X = [B, n]" and rest: "list_all (\<lambda>X. shape X = [B, n]) Xs"
    using Cons.prems(1) by simp_all
  obtain S1 O1 where step: "RNN_single R S X = Inr (S1, O1)"
    "shape S1 = [B, ns]" "length (data S1) = B * ns"
    "shape O1 = [B, nout]" "length (data O1) = B * nout"
    "\<forall>b<B. VectorizedRNN_single V (row S b) (row X b) = Inr (row S1 b, row O1 b)"
    using single_batch [OF Cons.prems(2) X R V] by blast
  obtain S' Os where IH: "scan_list (RNN_single R) S1 Xs = Inr (S', Os)"
    "shape S' = [B, ns]" "Xs \<noteq> [] \<longrightarrow> length (data S') = B * ns"
    "length Os = length Xs"
    "list_all (\<lambda>Y. shape Y = [B, nout] \<and> length (data Y) = B * nout) Os"
    "\<forall>b<B. scan_list (VectorizedRNN_single V) (row S1 b) (map (\<lambda>X. row X b) Xs)
              = Inr (row S' b, map (\<lambda>Y. row Y b) Os)"
    using Cons.IH [OF rest step(2)] by blast
  have len: "length (data S') = B * ns"
  proof (cases Xs)
    case Nil
    then show ?thesis using IH(1) step(3) by simp
  next
    case Cons
    then show ?thesis using IH(3) by simp
  qed
  show ?case
    apply (rule exI [of _ S'])
    apply (rule exI [of _ "O1 # Os"])
    using step IH len by simp
qed

section \<open>Stacking and the vectorizing transform\<close>

lemma collect_map_Inr: "collect (map (\<lambda>b. Inr (p b)) bs) = Inr (map p bs)"
  by (induction bs) simp_all

lemma map2_same: "map2 f (map g bs) (map h bs) = map (\<lambda>b. f (g b) (h b)) bs"
  by (induction bs) simp_all

lemma stack_uniform:
  "ts \<noteq> [] \<Longrightarrow> list_all (\<lambda>u. shape u = sh) ts \<Longrightarrow>
   stack ts = Inr \<lparr>shape = length ts # sh, data = concat (map data ts)\<rparr>"
  by (cases ts) (auto simp: stack_def list_all_iff)

lemma restack_nonempty: "ts \<noteq> [] \<Longrightarrow> restack ts = stack ts"
  by (cases ts) (simp_all add: restack_def)

lemma slices_rows: "shape t = B # sh \<Longrightarrow> slices t = Inr (map (row t) [0..<B])"
  by (simp add: slices_def)

text \<open>
  The vectorizing transform: when the function succeeds on every pair of slices, with
  results of one shape, the results are stacked in batch order.
\<close>

lemma Vectorize_rows:
  assumes "shape x = B # sx" and "shape s = B # ss" and "0 < B"
    and "\<forall>b<B. f (row x b) (row s b) = Inr (ys b, fs b) \<and> shape (ys b) = so \<and> shape (fs b) = sf"
  shows "Vectorize f x s =
           Inr (\<lparr>shape = B # so, data = concat (map (\<lambda>b. data (ys b)) [0..<B])\<rparr>,
                \<lparr>shape = B # sf, data = concat (map (\<lambda>b. data (fs b)) [0..<B])\<rparr>)"
proof -
  have "map2 f (map (row x) [0..<B]) (map (row s) [0..<B])
        = map (\<lambda>b. f (row x b) (row s b)) [0..<B]"
    by (rule map2_same)
  also have "\<dots> = map (\<lambda>b. Inr (ys b, fs b)) [0..<B]"
    using assms(4) by simp
  finally have col: "collect (map2 f (map (row x) [0..<B]) (map (row s) [0..<B]))
      = Inr (map (\<lambda>b. (ys b, fs b)) [0..<B])"
    by (simp add: collect_map_Inr)
  have ne: "map ys [0..<B] \<noteq> []" "map fs [0..<B] \<noteq> []" using assms(3) by simp_all
  have "list_all (\<lambda>u. shape u = so) (map ys [0..<B])" using assms(4) by (simp add: list_all_iff)
  then have st1: "restack (map ys [0..<B]) =
      Inr \<lparr>shape = B # so, data = concat (map (\<lambda>b. data (ys b)) [0..<B])\<rparr>"
    using stack_uniform [OF ne(1)] restack_nonempty [OF ne(1)] by (simp add: comp_def)
  have "list_all (\<lambda>u. shape u = sf) (map fs [0..<B])" using assms(4) by (simp add: list_all_iff)
  then have st2: "restack (map fs [0..<B]) =
      Inr \<lparr>shape = B # sf, data = concat (map (\<lambda>b. data (fs b)) [0..<B])\<rparr>"
    using stack_uniform [OF ne(2)] restack_nonempty [OF ne(2)] by (simp add: comp_def)
  show ?thesis
    unfolding Vectorize_def slices_rows [OF assms(1)] slices_rows [OF assms(2)]
    using col st1 st2 by (simp add: comp_def)
qed

lemma concat_chunks: "length d = B * m \<Longrightarrow> concat (map (\<lambda>b. chunk m b d) [0..<B]) = d"
proof (induction B arbitrary: d)
  case 0
  then show ?case by simp
next
  case (Suc B)
  have "length (take (B * m) d) = B * m" using Suc.prems by simp
  then have IH: "concat (map (\<lambda>b. chunk m b (take (B * m) d)) [0..<B]) = take (B * m) d"
    by (rule Suc.IH)
  have "chunk m b (take (B * m) d) = chunk m b d" if "b < B" for b
  proof -
    have "Suc b * m \<le> B * m" using that by (intro mult_le_mono1) simp
    then have "m \<le> B * m - b * m" by simp
    then show ?thesis by (simp add: chunk_def drop_take min_absorb1)
  qed
  then have "map (\<lambda>b. chunk m b d) [0..<B] = map (\<lambda>b. chunk m b (take (B * m) d)) [0..<B]"
    by simp
  then have "concat (map (\<lambda>b. chunk m b d) [0..<B]) = take (B * m) d"
    using IH by (simp only:)
  moreover have "chunk m B d = drop (B * m) d" using Suc.prems by (simp add: chunk_def)
  ultimately show ?case by simp
qed

lemma row_stacked:
  assumes "\<And>k. k < B \<Longrightarrow> length (g k) = prod_list sh" and "b < B"
  shows "row \<lparr>shape = B # sh, data = concat (map g [0..<B])\<rparr> b = \<lparr>shape = sh, data = g b\<rparr>"
  using assms by (simp add: row_def chunk_concat_map)

lemma map_nth_upt: "length xs = T \<Longrightarrow> map h xs = map (\<lambda>t. h (xs ! t)) [0..<T]"
proof -
  assume "length xs = T"
  then have "map (\<lambda>t. h (xs ! t)) [0..<T] = map h (map (\<lambda>t. xs ! t) [0..<length xs])" by simp
  then show ?thesis by (simp only: map_nth)
qed

text \<open>
  The batched driver and the driver on the whole batch, for the canonical cell and an
  affine output layer.
\<close>

lemma rnn_vec_RNN:
  fixes x :: "('a::{zero,plus,times}) tensor"
  assumes x: "shape x = [B, T, n]" and wx: "well_shaped x" and s: "shape s = [B, ns]"
    and B: "0 < B" and T: "0 < T"
    and R: "R = RNN_init (DDLRnnCell_call (DDLRnnCell_init n ns act Wxh Whh Bhh))
                  (Linear_call (output_layer ns nout Wo Bo))"
    and V: "V = VectorizedRNN_init (DDLRnnCell_call (DDLRnnCell_init n ns act Wxh Whh Bhh))
                  (Linear_call (output_layer ns nout Wo Bo))"
  shows "\<exists>out fin out'.
           rnn_vec V x s = Inr (out, fin) \<and> shape out = [B, T, nout] \<and> shape fin = [B, ns] \<and>
           (\<forall>b<B. VectorizedRNN_call V (row x b) (row s b) = Inr (row out b, row fin b)) \<and>
           RNN_call R x s = Inr (out', fin) \<and> shape out' = [T, B, nout] \<and>
           transpose102 out' = Inr out"
proof -
  have R': "R = \<lparr>rnn_cell = DDLRnnCell_call (DDLRnnCell_init n ns act Wxh Whh Bhh),
                 rnn_output_layer = Linear_call (output_layer ns nout Wo Bo)\<rparr>"
    by (simp add: R RNN_init_def)
  have V': "V = \<lparr>vec_cell = DDLRnnCell_call (DDLRnnCell_init n ns act Wxh Whh Bhh),
                 vec_output_layer = Linear_call (output_layer ns nout Wo Bo)\<rparr>"
    by (simp add: V VectorizedRNN_init_def)
  obtain xt where xt: "transpose102 x = Inr xt" "shape xt = [T, B, n]"
    "\<forall>t<T. shape (row xt t) = [B, n] \<and> (\<forall>b<B. row (row xt t) b = row (row x b) t)"
    using transpose102_rows [OF x wx] by blast
  let ?Xs = "map (row xt) [0..<T]"
  have Xs: "list_all (\<lambda>X. shape X = [B, n]) ?Xs" using xt(3) by (simp add: list_all_iff)
  obtain S' Os where sc: "scan_list (RNN_single R) s ?Xs = Inr (S', Os)"
    "shape S' = [B, ns]" "?Xs \<noteq> [] \<longrightarrow> length (data S') = B * ns"
    "length Os = length ?Xs"
    "list_all (\<lambda>Y. shape Y = [B, nout] \<and> length (data Y) = B * nout) Os"
    "\<forall>b<B. scan_list (VectorizedRNN_single V) (row s b) (map (\<lambda>X. row X b) ?Xs)
              = Inr (row S' b, map (\<lambda>Y. row Y b) Os)"
    using scan_list_batch [OF R' V' Xs s] by blast
  have lenS: "length (data S') = B * ns" using sc(3) T by simp
  have lenOs: "length Os = T" using sc(4) by simp
  then have Os_ne: "Os \<noteq> []" using T by auto
  have Os_shape: "list_all (\<lambda>Y. shape Y = [B, nout]) Os" and
    Os_len: "\<And>Y. Y \<in> set Os \<Longrightarrow> length (data Y) = B * nout"
    using sc(5) by (auto simp: list_all_iff)
  let ?D = "concat (map data Os)"
  let ?out' = "\<lparr>shape = [T, B, nout], data = ?D\<rparr>"
  have stack_Os: "restack Os = Inr ?out'"
    using stack_uniform [OF Os_ne Os_shape] restack_nonempty [OF Os_ne] lenOs by simp
  have rnn: "RNN_call R x s = Inr (?out', S')"
    using xt(1,2) sc(1) stack_Os by (simp add: RNN_call_def scan_def slices_rows)
  \<comment> \<open>the per-sequence runs\<close>
  let ?ys = "\<lambda>b. \<lparr>shape = [T, nout], data = concat (map (\<lambda>Y. data (row Y b)) Os)\<rparr>"
  have per: "VectorizedRNN_call V (row x b) (row s b) = Inr (?ys b, row S' b)" if b: "b < B" for b
  proof -
    have "shape (row x b) = [T, n]" using x by (simp add: row_def)
    then have sl: "slices (row x b) = Inr (map (row (row x b)) [0..<T])" by (rule slices_rows)
    have eq: "map (row (row x b)) [0..<T] = map (\<lambda>X. row X b) ?Xs"
      using xt(3) b by simp
    have "scan_list (VectorizedRNN_single V) (row s b) (map (\<lambda>X. row X b) ?Xs)
        = Inr (row S' b, map (\<lambda>Y. row Y b) Os)"
      using sc(6) b by blast
    then have run: "scan_list (VectorizedRNN_single V) (row s b) (map (row (row x b)) [0..<T])
        = Inr (row S' b, map (\<lambda>Y. row Y b) Os)"
      by (simp only: eq)
    have ne: "map (\<lambda>Y. row Y b) Os \<noteq> []" using Os_ne by simp
    have "list_all (\<lambda>u. shape u = [nout]) (map (\<lambda>Y. row Y b) Os)"
      using Os_shape by (simp add: list_all_iff row_def)
    then have "restack (map (\<lambda>Y. row Y b) Os) = Inr (?ys b)"
      using stack_uniform [OF ne] restack_nonempty [OF ne] lenOs by (simp add: comp_def)
    then show ?thesis using sl run by (simp add: VectorizedRNN_call_def scan_def)
  qed
  let ?out = "\<lparr>shape = [B, T, nout], data = concat (map (\<lambda>b. data (?ys b)) [0..<B])\<rparr>"
  let ?fin = "\<lparr>shape = [B, ns], data = concat (map (\<lambda>b. data (row S' b)) [0..<B])\<rparr>"
  have "\<forall>b<B. VectorizedRNN_call V (row x b) (row s b) = Inr (?ys b, row S' b) \<and>
          shape (?ys b) = [T, nout] \<and> shape (row S' b) = [ns]"
    using per sc(2) by (simp add: row_def)
  then have vec: "rnn_vec V x s = Inr (?out, ?fin)"
    unfolding rnn_vec_def
    by (rule Vectorize_rows [OF x s B, where ys = ?ys and fs = "\<lambda>b. row S' b"
          and so = "[T, nout]" and sf = "[ns]"])
  \<comment> \<open>the stacked final states are the final state of the batch\<close>
  have "data ?fin = data S'"
    using sc(2) lenS by (simp add: row_def concat_chunks)
  then have fin: "?fin = S'" using sc(2) by simp
  \<comment> \<open>the rows of the stacked outputs\<close>
  have len_row: "length (data (row Y b)) = nout" if "Y \<in> set Os" "b < B" for Y b
  proof -
    have "Suc b * nout \<le> B * nout" using that(2) by (intro mult_le_mono1) simp
    then show ?thesis using sc(5) that(1) by (simp add: list_all_iff row_def length_chunk)
  qed
  have len_ys: "length (data (?ys b)) = T * nout" if "b < B" for b
  proof -
    have "concat (map (\<lambda>Y. data (row Y b)) Os)
        = concat (map (\<lambda>t. data (row (Os ! t) b)) [0..<T])"
      using map_nth_upt [OF lenOs, of "\<lambda>Y. data (row Y b)"] by simp
    moreover have "length (concat (map (\<lambda>t. data (row (Os ! t) b)) [0..<T])) = T * nout"
      using that lenOs len_row by (intro length_concat_map) simp
    ultimately show ?thesis by simp
  qed
  have row_out: "row ?out b = ?ys b" if "b < B" for b
    using row_stacked [of B "\<lambda>b. data (?ys b)" "[T, nout]" b] len_ys that by simp
  have row_fin: "row ?fin b = row S' b" for b using fin by simp
  \<comment> \<open>the transposed outputs of the driver on the batch\<close>
  have tr_elem: "chunk nout (t * B + b) ?D = data (row (Os ! t) b)" if t: "t < T" and b: "b < B" for t b
  proof -
    have "chunk (B * nout) t ?D = map data Os ! t"
      using t lenOs Os_len by (intro chunk_concat_uniform) auto
    then have "chunk (B * nout) t ?D = data (Os ! t)" using t lenOs by simp
    moreover have "chunk nout b (chunk (B * nout) t ?D) = chunk nout (t * B + b) ?D"
      using b by (rule chunk_chunk)
    moreover have "shape (Os ! t) = [B, nout]"
      using Os_shape t lenOs by (simp add: list_all_length)
    ultimately show ?thesis by (simp add: row_def)
  qed
  have "concat (map (\<lambda>t. chunk nout (t * B + b) ?D) [0..<T]) = data (?ys b)" if b: "b < B" for b
  proof -
    have "map (\<lambda>t. chunk nout (t * B + b) ?D) [0..<T] = map (\<lambda>t. data (row (Os ! t) b)) [0..<T]"
      using tr_elem b by simp
    also have "\<dots> = map (\<lambda>Y. data (row Y b)) Os"
      using map_nth_upt [OF lenOs, of "\<lambda>Y. data (row Y b)"] by simp
    finally show ?thesis by simp
  qed
  then have m: "map (\<lambda>b. concat (map (\<lambda>t. chunk nout (t * B + b) ?D) [0..<T])) [0..<B]
      = map (\<lambda>b. data (?ys b)) [0..<B]"
    by simp
  have "transpose102 ?out' =
      Inr \<lparr>shape = [B, T, nout],
           data = concat (map (\<lambda>b. concat (map (\<lambda>t. chunk nout (t * B + b) ?D) [0..<T]))
                              [0..<B])\<rparr>"
    by (simp add: transpose102_def)
  then have tr: "transpose102 ?out' = Inr ?out"
    by (simp only: m)
  show ?thesis
    apply (rule exI [of _ ?out])
    apply (rule exI [of _ S'])
    apply (rule exI [of _ ?out'])
    using vec fin per row_out row_fin rnn tr sc(2) by simp
qed

lemma rnn_vec_rows:
  assumes "shape x = B # sx" and "shape s = B # ss" and "0 < B"
    and "\<forall>b<B. VectorizedRNN_call V (row x b) (row s b) = Inr (ys b, fs b) \<and>
               shape (ys b) = so \<and> well_shaped (ys b) \<and>
               shape (fs b) = sf \<and> well_shaped (fs b)"
  shows "\<exists>out fin. rnn_vec V x s = Inr (out, fin) \<and> shape out = B # so \<and> shape fin = B # sf \<and>
           (\<forall>b<B. row out b = ys b \<and> row fin b = fs b)"
proof -
  let ?out = "\<lparr>shape = B # so, data = concat (map (\<lambda>b. data (ys b)) [0..<B])\<rparr>"
  let ?fin = "\<lparr>shape = B # sf, data = concat (map (\<lambda>b. data (fs b)) [0..<B])\<rparr>"
  have "\<forall>b<B. VectorizedRNN_call V (row x b) (row s b) = Inr (ys b, fs b) \<and>
          shape (ys b) = so \<and> shape (fs b) = sf"
    using assms(4) by simp
  then have vec: "rnn_vec V x s = Inr (?out, ?fin)"
    unfolding rnn_vec_def by (rule Vectorize_rows [OF assms(1,2,3)])
  have ly: "length (data (ys b)) = prod_list so" if "b < B" for b
    using assms(4) that by (auto simp: well_shaped_def)
  have lf: "length (data (fs b)) = prod_list sf" if "b < B" for b
    using assms(4) that by (auto simp: well_shaped_def)
  have "row ?out b = ys b" if b: "b < B" for b
    using row_stacked [of B "\<lambda>b. data (ys b)" so b] ly b assms(4) by simp
  moreover have "row ?fin b = fs b" if b: "b < B" for b
    using row_stacked [of B "\<lambda>b. data (fs b)" sf b] lf b assms(4) by simp
  ultimately show ?thesis using vec by simp
qed

text \<open>The small configuration, evaluated.\<close>

lemma ex_rows:
  "row ex_x 0 = \<lparr>shape = [2, 1], data = [3, 4]\<rparr>"
  "row ex_x 1 = \<lparr>shape = [2, 1], data = [5, 6]\<rparr>"
  "row ex_s 0 = \<lparr>shape = [2], data = [1, 2]\<rparr>"
  "row ex_s 1 = \<lparr>shape = [2], data = [0, 1]\<rparr>"
  by (simp_all add: ex_x_def ex_s_def row_def chunk_def)

lemma ex_per_sequence:
  "VectorizedRNN_call ex_VectorizedRNN \<lparr>shape = [2, 1], data = [3, 4]\<rparr> \<lparr>shape = [2], data = [1, 2]\<rparr>
     = Inr (\<lparr>shape = [2, 1], data = [77, 381]\<rparr>, \<lparr>shape = [2], data = [112, 264]\<rparr>)"
  "VectorizedRNN_call ex_VectorizedRNN \<lparr>shape = [2, 1], data = [5, 6]\<rparr> \<lparr>shape = [2], data = [0, 1]\<rparr>
     = Inr (\<lparr>shape = [2, 1], data = [81, 409]\<rparr>, \<lparr>shape = [2], data = [120, 284]\<rparr>)"
  by code_simp+

lemma ex_RNN_call:
  "RNN_call ex_RNN ex_x ex_s
     = Inr (\<lparr>shape = [2, 2, 1], data = [77, 81, 381, 409]\<rparr>,
            \<lparr>shape = [2, 2], data = [112, 264, 120, 284]\<rparr>)"
  by code_simp

lemma ex_rnn_vec:
  "rnn_vec ex_VectorizedRNN ex_x ex_s
     = Inr (\<lparr>shape = [2, 2, 1], data = [77, 381, 81, 409]\<rparr>,
            \<lparr>shape = [2, 2], data = [112, 264, 120, 284]\<rparr>)"
  by code_simp

lemma ex_time_first:
  "VectorizedRNN_call ex_VectorizedRNN ex_x ex_s
     = Inr (\<lparr>shape = [2, 2, 1], data = [77, 75, 387, 381]\<rparr>,
            \<lparr>shape = [2, 2], data = [114, 268, 112, 264]\<rparr>)"
  by code_simp

section \<open>The batched driver against the sequential driver\<close>

text \<open>
  C2. Running the batched driver (\<open>Vectorize\<close> of \<open>VectorizedRNN\<close> with batch axes
  \<open>(0, 0)\<close>) on a batch of \<open>B > 0\<close> sequences gives, per batch element, the outputs
  and the final state of the per-sequence driver run on that sequence alone. This holds
  for every cell and every output layer: whenever \<open>VectorizedRNN.__call__\<close> succeeds on
  each sequence of the batch with results of one shape, row \<open>b\<close> of the batched outputs
  and of the batched final states are the results for sequence \<open>b\<close>. For the
  configuration of the source, a \<open>DDLRnnCell\<close> with an affine output layer, a
  well-formed batch of shape \<open>(B, T, nin)\<close> with \<open>T > 0\<close> and initial states of shape
  \<open>(B, nstate)\<close>, both drivers succeed, the final states of the batched driver are those
  of \<open>RNN.__call__\<close> on the whole batch, and its outputs, of shape \<open>(B, T, nout)\<close>, are
  the outputs of \<open>RNN.__call__\<close>, of shape \<open>(T, B, nout)\<close>, with the time and batch
  axes transposed (the two assertions of the source).
\<close>

theorem batched_driver_equivalence:
  fixes x xg :: "('a::{zero,plus,times}) tensor"
  assumes "shape xg = Bg # sx" and "shape sg = Bg # ss" and "0 < Bg"
    and "\<forall>b<Bg. VectorizedRNN_call Vg (row xg b) (row sg b) = Inr (ys b, fs b) \<and>
                shape (ys b) = so \<and> well_shaped (ys b) \<and>
                shape (fs b) = sf \<and> well_shaped (fs b)"
    and "shape x = [B, T, n]" and "well_shaped x" and "shape s = [B, ns]"
    and "0 < B" and "0 < T"
  shows "(\<exists>out fin. rnn_vec Vg xg sg = Inr (out, fin) \<and>
            shape out = Bg # so \<and> shape fin = Bg # sf \<and>
            (\<forall>b<Bg. row out b = ys b \<and> row fin b = fs b)) \<and>
         (\<exists>out fin out'.
            rnn_vec (VectorizedRNN_init
                       (DDLRnnCell_call (DDLRnnCell_init n ns act Wxh Whh Bhh))
                       (Linear_call (output_layer ns nout Wo Bo))) x s = Inr (out, fin) \<and>
            shape out = [B, T, nout] \<and> shape fin = [B, ns] \<and>
            (\<forall>b<B. VectorizedRNN_call
                      (VectorizedRNN_init
                         (DDLRnnCell_call (DDLRnnCell_init n ns act Wxh Whh Bhh))
                         (Linear_call (output_layer ns nout Wo Bo))) (row x b) (row s b)
                    = Inr (row out b, row fin b)) \<and>
            RNN_call (RNN_init
                        (DDLRnnCell_call (DDLRnnCell_init n ns act Wxh Whh Bhh))
                        (Linear_call (output_layer ns nout Wo Bo))) x s = Inr (out', fin) \<and>
            shape out' = [T, B, nout] \<and>
            transpose102 out' = Inr out)"
proof (rule conjI)
  show "\<exists>out fin. rnn_vec Vg xg sg = Inr (out, fin) \<and>
            shape out = Bg # so \<and> shape fin = Bg # sf \<and>
            (\<forall>b<Bg. row out b = ys b \<and> row fin b = fs b)"
    using assms(1-4) by (rule rnn_vec_rows)
next
  show "\<exists>out fin out'.
            rnn_vec (VectorizedRNN_init
                       (DDLRnnCell_call (DDLRnnCell_init n ns act Wxh Whh Bhh))
                       (Linear_call (output_layer ns nout Wo Bo))) x s = Inr (out, fin) \<and>
            shape out = [B, T, nout] \<and> shape fin = [B, ns] \<and>
            (\<forall>b<B. VectorizedRNN_call
                      (VectorizedRNN_init
                         (DDLRnnCell_call (DDLRnnCell_init n ns act Wxh Whh Bhh))
                         (Linear_call (output_layer ns nout Wo Bo))) (row x b) (row s b)
                    = Inr (row out b, row fin b)) \<and>
            RNN_call (RNN_init
                        (DDLRnnCell_call (DDLRnnCell_init n ns act Wxh Whh Bhh))
                        (Linear_call (output_layer ns nout Wo Bo))) x s = Inr (out', fin) \<and>
            shape out' = [T, B, nout] \<and>
            transpose102 out' = Inr out"
    using assms(5-9) refl refl by (rule rnn_vec_RNN)
qed

theorem batched_driver_equivalence_witness:
  "shape ex_x = 2 # [2, 1] \<and> shape ex_s = 2 # [2] \<and> (0::nat) < 2 \<and>
   VectorizedRNN_call ex_VectorizedRNN (row ex_x 0) (row ex_s 0)
     = Inr (\<lparr>shape = [2, 1], data = [77, 381]\<rparr>, \<lparr>shape = [2], data = [112, 264]\<rparr>) \<and>
   VectorizedRNN_call ex_VectorizedRNN (row ex_x 1) (row ex_s 1)
     = Inr (\<lparr>shape = [2, 1], data = [81, 409]\<rparr>, \<lparr>shape = [2], data = [120, 284]\<rparr>) \<and>
   shape ex_x = [2, 2, 1] \<and> well_shaped ex_x \<and> shape ex_s = [2, 2] \<and>
   rnn_vec ex_VectorizedRNN ex_x ex_s
     = Inr (\<lparr>shape = [2, 2, 1], data = [77, 381, 81, 409]\<rparr>,
            \<lparr>shape = [2, 2], data = [112, 264, 120, 284]\<rparr>) \<and>
   RNN_call ex_RNN ex_x ex_s
     = Inr (\<lparr>shape = [2, 2, 1], data = [77, 81, 381, 409]\<rparr>,
            \<lparr>shape = [2, 2], data = [112, 264, 120, 284]\<rparr>) \<and>
   transpose102 \<lparr>shape = [2, 2, 1], data = [77, 81, 381, 409::int]\<rparr>
     = Inr \<lparr>shape = [2, 2, 1], data = [77, 381, 81, 409]\<rparr> \<and>
   row \<lparr>shape = [2, 2, 1], data = [77, 381, 81, 409::int]\<rparr> 1
     = \<lparr>shape = [2, 1], data = [81, 409]\<rparr>"
proof -
  let ?OUT = "\<lparr>shape = [2, 2, 1], data = [77, 381, 81, 409::int]\<rparr>"
  let ?FIN = "\<lparr>shape = [2, 2], data = [112, 264, 120, 284::int]\<rparr>"
  let ?OUT' = "\<lparr>shape = [2, 2, 1], data = [77, 81, 381, 409::int]\<rparr>"
  let ?ys = "\<lambda>b::nat. if b = 0 then \<lparr>shape = [2, 1], data = [77, 381::int]\<rparr>
                       else \<lparr>shape = [2, 1], data = [81, 409]\<rparr>"
  let ?fs = "\<lambda>b::nat. if b = 0 then \<lparr>shape = [2], data = [112, 264::int]\<rparr>
                       else \<lparr>shape = [2], data = [120, 284]\<rparr>"
  have h1: "shape ex_x = 2 # [2, 1]" and h2: "shape ex_s = 2 # [2]" and h3: "(0::nat) < 2"
    and h5: "shape ex_x = [2, 2, 1]" and h6: "well_shaped ex_x" and h7: "shape ex_s = [2, 2]"
    by (simp_all add: ex_x_def ex_s_def well_shaped_def)
  have p0: "VectorizedRNN_call ex_VectorizedRNN (row ex_x 0) (row ex_s 0)
      = Inr (\<lparr>shape = [2, 1], data = [77, 381]\<rparr>, \<lparr>shape = [2], data = [112, 264]\<rparr>)"
    and p1: "VectorizedRNN_call ex_VectorizedRNN (row ex_x 1) (row ex_s 1)
      = Inr (\<lparr>shape = [2, 1], data = [81, 409]\<rparr>, \<lparr>shape = [2], data = [120, 284]\<rparr>)"
    unfolding ex_rows ex_per_sequence by simp_all
  let ?P = "\<lambda>b. VectorizedRNN_call ex_VectorizedRNN (row ex_x b) (row ex_s b)
             = Inr (?ys b, ?fs b) \<and>
           shape (?ys b) = [2, 1] \<and> well_shaped (?ys b) \<and>
           shape (?fs b) = [2] \<and> well_shaped (?fs b)"
  have q0: "?P 0" using p0 by (simp add: well_shaped_def)
  have q1: "?P 1" using p1 by (simp add: well_shaped_def)
  have h4: "\<forall>b<2. ?P b"
  proof (intro allI impI)
    fix b :: nat
    assume "b < 2"
    then have "b = 0 \<or> b = 1" by auto
    then show "?P b" using q0 q1 by blast
  qed
  note inst = batched_driver_equivalence [OF h1 h2 h3 h4 h5 h6 h7 h3 h3,
      of "\<lambda>v. 2 * v" "\<lambda>k j. 1 + int j" "\<lambda>k j. int k + int j" "\<lambda>j. 10" 1 "\<lambda>k j. 1" "\<lambda>j. 5"]
  then obtain out fin out' where r:
    "rnn_vec ex_VectorizedRNN ex_x ex_s = Inr (out, fin)"
    "RNN_call ex_RNN ex_x ex_s = Inr (out', fin)" "transpose102 out' = Inr out"
    unfolding ex_VectorizedRNN_def ex_RNN_def ex_rnn_cell_def ex_out_layer_def by blast
  from inst obtain out2 fin2 where r2:
    "rnn_vec ex_VectorizedRNN ex_x ex_s = Inr (out2, fin2)" "row out2 1 = ?ys 1"
    by (metis one_less_numeral_iff semiring_norm(76))
  have out: "out = ?OUT" "fin = ?FIN" using r(1) ex_rnn_vec by simp_all
  have out': "out' = ?OUT'" using r(2) ex_RNN_call by simp
  have out2: "out2 = ?OUT" using r2(1) ex_rnn_vec by simp
  have t: "transpose102 ?OUT' = Inr ?OUT" using r(3) out out' by simp
  have rw: "row ?OUT 1 = \<lparr>shape = [2, 1], data = [81, 409]\<rparr>" using r2(2) out2 by simp
  show ?thesis
    apply (rule conjI, rule h1)
    apply (rule conjI, rule h2)
    apply (rule conjI, rule h3)
    apply (rule conjI, rule p0)
    apply (rule conjI, rule p1)
    apply (rule conjI, rule h5)
    apply (rule conjI, rule h6)
    apply (rule conjI, rule h7)
    apply (rule conjI, rule ex_rnn_vec)
    apply (rule conjI, rule ex_RNN_call)
    apply (rule conjI, rule t)
    apply (rule rw)
    done
qed

section \<open>The axis conventions of the drivers\<close>

lemma scan_list_length: "scan_list f s xs = Inr (s', ys) \<Longrightarrow> length ys = length xs"
proof (induction xs arbitrary: s s' ys)
  case Nil
  then show ?case by simp
next
  case (Cons x xs)
  then show ?case by (auto split: sum.splits prod.splits)
qed

lemma restack_hd: "restack ys = Inr out \<Longrightarrow> hd (shape out) = length ys"
  by (cases ys) (auto simp: restack_def stack_def split: if_splits)

lemma transpose102_time_slice:
  assumes "shape x = [B, T, n]" and "well_shaped x"
  shows "\<exists>xt. transpose102 x = Inr xt \<and> shape xt = [T, B, n] \<and>
           map (row xt) [0..<T] = map (time_slice x) [0..<T]"
proof -
  let ?g = "\<lambda>t b. chunk n (b * T + t) (data x)"
  let ?h = "\<lambda>t. concat (map (?g t) [0..<B])"
  let ?xt = "\<lparr>shape = [T, B, n], data = concat (map ?h [0..<T])\<rparr>"
  have tr: "transpose102 x = Inr ?xt" using assms(1) by (simp add: transpose102_def)
  have len: "length (data x) = B * T * n" using assms by (simp add: well_shaped_def)
  have lg: "length (?g t b) = n" if "t < T" "b < B" for t b
  proof -
    have "b * T + t < B * T" using that(2,1) by (rule index_in_range)
    then have "Suc (b * T + t) * n \<le> (B * T) * n" by (intro mult_le_mono1) simp
    then show ?thesis using len by (intro length_chunk) simp
  qed
  have lh: "length (?h t) = B * n" if "t < T" for t
    using that lg by (intro length_concat_map) simp
  have "row ?xt t = time_slice x t" if t: "t < T" for t
  proof -
    have "row ?xt t = \<lparr>shape = [B, n], data = ?h t\<rparr>"
      using t lh by (simp add: row_def chunk_concat_map)
    moreover have "data (row (row x b) t) = ?g t b" for b
      using assms(1) t by (simp add: row_def chunk_chunk)
    ultimately show ?thesis using assms(1) by (simp add: time_slice_def)
  qed
  then have "map (row ?xt) [0..<T] = map (time_slice x) [0..<T]" by simp
  then show ?thesis using tr by simp
qed

text \<open>
  C6, as the spec states it, asks that the sequential driver be given its input with the
  time axis first, any batch-major input being reordered by the caller and not by the
  driver. \<open>RNN.__call__\<close> does not fold its input along the leading axis: on the batch
  \<open>ex_x\<close>, whose two sequences are \<open>3, 4\<close> and \<open>5, 6\<close>, its first step consumes
  \<open>x[:, 0, :] = 3, 5\<close>, where the fold along the leading axis
  (\<open>VectorizedRNN.__call__\<close> on the same array) takes \<open>x[0] = 3, 4\<close> as its first
  element, and the results differ.
\<close>

theorem RNN_input_not_time_major_counterexample:
  "RNN_call ex_RNN ex_x ex_s
     = Inr (\<lparr>shape = [2, 2, 1], data = [77, 81, 381, 409]\<rparr>,
            \<lparr>shape = [2, 2], data = [112, 264, 120, 284]\<rparr>) \<and>
   VectorizedRNN_call ex_VectorizedRNN ex_x ex_s
     = Inr (\<lparr>shape = [2, 2, 1], data = [77, 75, 387, 381]\<rparr>,
            \<lparr>shape = [2, 2], data = [114, 268, 112, 264]\<rparr>) \<and>
   RNN_call ex_RNN ex_x ex_s \<noteq> VectorizedRNN_call ex_VectorizedRNN ex_x ex_s"
  by (simp add: ex_RNN_call ex_time_first)

text \<open>
  C6, amended. \<open>RNN.__call__\<close> takes its input batch-major, of shape \<open>(B, T, nin)\<close>,
  and reorders it itself: step \<open>t\<close> of its fold consumes \<open>x[:, t, :]\<close>; its output
  sequence is time-axis-first (its leading axis has extent \<open>T\<close>).
  \<open>VectorizedRNN.__call__\<close> takes its input time-axis-first: step \<open>t\<close> consumes
  \<open>x[t]\<close>, and its output sequence is time-axis-first. The cell of the factorized
  driver takes a time-axis-first sequence of shape \<open>(T, nin)\<close>, \<open>T > 0\<close>: pass \<open>t\<close> of
  its loop is the update with \<open>x[t]\<close>.
\<close>

theorem drivers_axis_convention:
  fixes stf :: "('a::{zero,plus,times}) tensor"
  assumes "shape x = [B, T, n]" and "well_shaped x" and "shape xv = Tv # sv"
    and "shape xf = [Tf, nf]" and "0 < Tf" and "shape stf = [ns]"
  shows "RNN_call R x state =
           (case scan_list (RNN_single R) state (map (time_slice x) [0..<T]) of
              Inl e \<Rightarrow> Inl e
            | Inr (final_state, ys) \<Rightarrow>
                (case restack ys of
                   Inl e \<Rightarrow> Inl e
                 | Inr output \<Rightarrow> Inr (output, final_state))) \<and>
         (\<forall>output final_state.
            RNN_call R x state = Inr (output, final_state) \<longrightarrow> hd (shape output) = T) \<and>
         VectorizedRNN_call V xv statev =
           (case scan_list (VectorizedRNN_single V) statev (map (row xv) [0..<Tv]) of
              Inl e \<Rightarrow> Inl e
            | Inr (final_state, ys) \<Rightarrow>
                (case restack ys of
                   Inl e \<Rightarrow> Inl e
                 | Inr output \<Rightarrow> Inr (output, final_state))) \<and>
         (\<forall>output final_state.
            VectorizedRNN_call V xv statev = Inr (output, final_state) \<longrightarrow>
            hd (shape output) = Tv) \<and>
         fst (FactorizedRnnCell_call
                ((FactorizedRnnCell_init nf ns act Wxh Whh Bhh)\<lparr>factor := fc\<rparr>) stf xf) =
           (case run_steps (DDLRnnCell_call (DDLRnnCell_init nf ns act Wxh Whh Bhh)) stf
                   (map (row xf) [0..<Tf]) of
              Inl e \<Rightarrow> Inl e
            | Inr s' \<Rightarrow> reshape s' [1, ns])"
proof -
  obtain xt where xt: "transpose102 x = Inr xt" "shape xt = [T, B, n]"
    "map (row xt) [0..<T] = map (time_slice x) [0..<T]"
    using transpose102_time_slice [OF assms(1,2)] by blast
  have rnn: "RNN_call R x state =
           (case scan_list (RNN_single R) state (map (time_slice x) [0..<T]) of
              Inl e \<Rightarrow> Inl e
            | Inr (final_state, ys) \<Rightarrow>
                (case restack ys of
                   Inl e \<Rightarrow> Inl e
                 | Inr output \<Rightarrow> Inr (output, final_state)))"
    unfolding RNN_call_def scan_def xt(1) by (simp add: slices_rows [OF xt(2)] xt(3) split: sum.splits prod.splits)
  have rnn_out: "hd (shape outp) = T" if call: "RNN_call R x state = Inr (outp, fin)"
    for outp fin
  proof -
    obtain ys where "scan_list (RNN_single R) state (map (time_slice x) [0..<T])
        = Inr (fin, ys)" "restack ys = Inr outp"
      using call unfolding rnn by (auto split: sum.splits prod.splits)
    then show ?thesis using scan_list_length restack_hd by fastforce
  qed
  have vec: "VectorizedRNN_call V xv statev =
           (case scan_list (VectorizedRNN_single V) statev (map (row xv) [0..<Tv]) of
              Inl e \<Rightarrow> Inl e
            | Inr (final_state, ys) \<Rightarrow>
                (case restack ys of
                   Inl e \<Rightarrow> Inl e
                 | Inr output \<Rightarrow> Inr (output, final_state)))"
    unfolding VectorizedRNN_call_def scan_def by (simp add: slices_rows [OF assms(3)] split: sum.splits prod.splits)
  have vec_out: "hd (shape outp) = Tv"
    if call: "VectorizedRNN_call V xv statev = Inr (outp, fin)" for outp fin
  proof -
    obtain ys where "scan_list (VectorizedRNN_single V) statev (map (row xv) [0..<Tv])
        = Inr (fin, ys)" "restack ys = Inr outp"
      using call unfolding vec by (auto split: sum.splits prod.splits)
    then show ?thesis using scan_list_length restack_hd by fastforce
  qed
  obtain s' where s': "run_steps (DDLRnnCell_call (DDLRnnCell_init nf ns act Wxh Whh Bhh)) stf
       (map (row xf) [0..<Tf]) = Inr s'" "shape s' = [ns]"
    "fst (FactorizedRnnCell_call
            ((FactorizedRnnCell_init nf ns act Wxh Whh Bhh)\<lparr>factor := fc\<rparr>) stf xf)
       = Inr \<lparr>shape = [1, ns], data = data s'\<rparr>"
    using factorized_cell_final [OF assms(6,4,5), of act Wxh Whh Bhh fc] by blast
  have fac: "fst (FactorizedRnnCell_call
                ((FactorizedRnnCell_init nf ns act Wxh Whh Bhh)\<lparr>factor := fc\<rparr>) stf xf) =
           (case run_steps (DDLRnnCell_call (DDLRnnCell_init nf ns act Wxh Whh Bhh)) stf
                   (map (row xf) [0..<Tf]) of
              Inl e \<Rightarrow> Inl e
            | Inr s' \<Rightarrow> reshape s' [1, ns])"
    using s' by (simp add: reshape_def)
  show ?thesis using rnn rnn_out vec vec_out fac by blast
qed

theorem drivers_axis_convention_witness:
  "shape ex_x = [2, 2, 1] \<and> well_shaped ex_x \<and> shape ex_x = 2 # [2, 1] \<and>
   shape \<lparr>shape = [2, 1], data = [3, 4::int]\<rparr> = [2, 1] \<and> (0::nat) < 2 \<and>
   shape \<lparr>shape = [2], data = [1, 2::int]\<rparr> = [2] \<and>
   RNN_call ex_RNN ex_x ex_s =
      (case scan_list (RNN_single ex_RNN) ex_s (map (time_slice ex_x) [0..<2]) of
         Inl e \<Rightarrow> Inl e
       | Inr (final_state, ys) \<Rightarrow>
           (case restack ys of
              Inl e \<Rightarrow> Inl e
            | Inr output \<Rightarrow> Inr (output, final_state))) \<and>
   hd (shape \<lparr>shape = [2, 2, 1], data = [77, 81, 381, 409::int]\<rparr>) = 2 \<and>
   VectorizedRNN_call ex_VectorizedRNN ex_x ex_s =
      (case scan_list (VectorizedRNN_single ex_VectorizedRNN) ex_s (map (row ex_x) [0..<2]) of
         Inl e \<Rightarrow> Inl e
       | Inr (final_state, ys) \<Rightarrow>
           (case restack ys of
              Inl e \<Rightarrow> Inl e
            | Inr output \<Rightarrow> Inr (output, final_state))) \<and>
   hd (shape \<lparr>shape = [2, 2, 1], data = [77, 75, 387, 381::int]\<rparr>) = 2 \<and>
   fst (FactorizedRnnCell_call
           ((FactorizedRnnCell_init 1 2 (\<lambda>v. 2 * v) (\<lambda>k j. 1 + int j) (\<lambda>k j. int k + int j)
               (\<lambda>j. 10))\<lparr>factor := None\<rparr>)
           \<lparr>shape = [2], data = [1, 2]\<rparr> \<lparr>shape = [2, 1], data = [3, 4]\<rparr>) =
      (case run_steps
              (DDLRnnCell_call
                 (DDLRnnCell_init 1 2 (\<lambda>v. 2 * v) (\<lambda>k j. 1 + int j) (\<lambda>k j. int k + int j)
                    (\<lambda>j. 10)))
              \<lparr>shape = [2], data = [1, 2]\<rparr>
              (map (row \<lparr>shape = [2, 1], data = [3, 4]\<rparr>) [0..<2]) of
         Inl e \<Rightarrow> Inl e
       | Inr s' \<Rightarrow> reshape s' [1, 2])"
proof -
  have h1: "shape ex_x = [2, 2, 1]" and h2: "well_shaped ex_x" and h3: "shape ex_x = 2 # [2, 1]"
    and h4: "shape \<lparr>shape = [2, 1], data = [3, 4::int]\<rparr> = [2, 1]" and h5: "(0::nat) < 2"
    and h6: "shape \<lparr>shape = [2], data = [1, 2::int]\<rparr> = [2]"
    by (simp_all add: ex_x_def well_shaped_def)
  note inst = drivers_axis_convention [OF h1 h2 h3 h4 h5 h6, where R = ex_RNN and state = ex_s
      and V = ex_VectorizedRNN and statev = ex_s and act = "\<lambda>v. 2 * v"
      and Wxh = "\<lambda>k j. 1 + int j" and Whh = "\<lambda>k j. int k + int j" and Bhh = "\<lambda>j. 10"
      and fc = None]
  have c1: "RNN_call ex_RNN ex_x ex_s =
      (case scan_list (RNN_single ex_RNN) ex_s (map (time_slice ex_x) [0..<2]) of
         Inl e \<Rightarrow> Inl e
       | Inr (final_state, ys) \<Rightarrow>
           (case restack ys of
              Inl e \<Rightarrow> Inl e
            | Inr output \<Rightarrow> Inr (output, final_state)))"
    using inst by (rule conjunct1)
  have c2: "hd (shape \<lparr>shape = [2, 2, 1], data = [77, 81, 381, 409::int]\<rparr>) = 2"
    using inst ex_RNN_call by blast
  have c3: "VectorizedRNN_call ex_VectorizedRNN ex_x ex_s =
      (case scan_list (VectorizedRNN_single ex_VectorizedRNN) ex_s (map (row ex_x) [0..<2]) of
         Inl e \<Rightarrow> Inl e
       | Inr (final_state, ys) \<Rightarrow>
           (case restack ys of
              Inl e \<Rightarrow> Inl e
            | Inr output \<Rightarrow> Inr (output, final_state)))"
    using inst by blast
  have c4: "hd (shape \<lparr>shape = [2, 2, 1], data = [77, 75, 387, 381::int]\<rparr>) = 2"
    using inst ex_time_first by blast
  have c5: "fst (FactorizedRnnCell_call
           ((FactorizedRnnCell_init 1 2 (\<lambda>v. 2 * v) (\<lambda>k j. 1 + int j) (\<lambda>k j. int k + int j)
               (\<lambda>j. 10))\<lparr>factor := None\<rparr>)
           \<lparr>shape = [2], data = [1, 2]\<rparr> \<lparr>shape = [2, 1], data = [3, 4]\<rparr>) =
      (case run_steps
              (DDLRnnCell_call
                 (DDLRnnCell_init 1 2 (\<lambda>v. 2 * v) (\<lambda>k j. 1 + int j) (\<lambda>k j. int k + int j)
                    (\<lambda>j. 10)))
              \<lparr>shape = [2], data = [1, 2]\<rparr>
              (map (row \<lparr>shape = [2, 1], data = [3, 4]\<rparr>) [0..<2]) of
         Inl e \<Rightarrow> Inl e
       | Inr s' \<Rightarrow> reshape s' [1, 2])"
    using inst by blast
  show ?thesis
    apply (rule conjI, rule h1)
    apply (rule conjI, rule h2)
    apply (rule conjI, rule h3)
    apply (rule conjI, rule h4)
    apply (rule conjI, rule h5)
    apply (rule conjI, rule h6)
    apply (rule conjI, rule c1)
    apply (rule conjI, rule c2)
    apply (rule conjI, rule c3)
    apply (rule conjI, rule c4)
    apply (rule c5)
    done
qed

section \<open>The forward calls on objects and the forward calls as functions\<close>

text \<open>
  The calls on objects return what the calls of the sections above return, and hand the
  cells and output layers back with their affine transforms as they were.
\<close>

lemma MyRnnCell_call_st_eq: "MyRnnCell_call_st state x c = (MyRnnCell_call c state x, c)"
  by (simp add: MyRnnCell_call_st_def MyRnnCell_call_def Linear_call_st_def Let_def
      split: sum.splits)

lemma DDLRnnCell_call_st_eq: "DDLRnnCell_call_st state x c = (DDLRnnCell_call c state x, c)"
  by (simp add: DDLRnnCell_call_st_def DDLRnnCell_call_def Linear_call_st_def Let_def
      split: sum.splits)

lemma factorized_loop_st_eq:
  "factorized_loop_st fac js state acc c = (factorized_loop c fac js state acc, c)"
proof (induction js arbitrary: state acc)
  case Nil
  then show ?case by simp
next
  case (Cons i js)
  then show ?case
    by (simp add: Linear_call_st_def Let_def split: sum.splits)
qed

lemma FactorizedRnnCell_call_st_eq:
  "FactorizedRnnCell_call_st state x c = FactorizedRnnCell_call c state x"
  by (simp add: FactorizedRnnCell_call_st_def FactorizedRnnCell_call_def Linear_call_st_def
      factorized_loop_st_eq Let_def split: sum.splits list.splits prod.splits)

lemma erase_cache_after_call:
  "erase_cache (FactorizedRnnCellM (snd (FactorizedRnnCell_call c state x)))
     = erase_cache (FactorizedRnnCellM c)"
  by (simp add: erase_cache_def FactorizedRnnCell_call_snd)

lemma call_cell_frame:
  "learned (snd (call_cell a state x w)) = learned w"
  "layers (snd (call_cell a state x w)) = layers w"
  "generator (snd (call_cell a state x w)) = generator w"
proof -
  show "learned (snd (call_cell a state x w)) = learned w"
  proof (cases "cells w a")
    case (MyRnnCellM c)
    then show ?thesis
      by (auto simp: call_cell_def MyRnnCell_call_st_eq learned_def fun_eq_iff)
  next
    case (FactorizedRnnCellM c)
    then show ?thesis
      using erase_cache_after_call [of c state x]
      by (auto simp: call_cell_def FactorizedRnnCell_call_st_eq learned_def fun_eq_iff
          split: prod.splits)
  next
    case (DDLRnnCellM c)
    then show ?thesis
      by (auto simp: call_cell_def DDLRnnCell_call_st_eq learned_def fun_eq_iff)
  qed
  show "layers (snd (call_cell a state x w)) = layers w"
    by (simp add: call_cell_def split: cell_obj.splits prod.splits)
  show "generator (snd (call_cell a state x w)) = generator w"
    by (simp add: call_cell_def split: cell_obj.splits prod.splits)
qed

lemma call_cell_cong:
  assumes "learned w' = learned w"
  shows "fst (call_cell a state x w') = fst (call_cell a state x w)"
proof -
  have e: "erase_cache (cells w' a) = erase_cache (cells w a)"
    using assms by (simp add: learned_def fun_eq_iff)
  show ?thesis
  proof (cases "cells w a")
    case (MyRnnCellM c)
    then have "cells w' a = MyRnnCellM c"
      using e by (cases "cells w' a") (simp_all add: erase_cache_def)
    then show ?thesis using MyRnnCellM by (simp add: call_cell_def split: prod.splits)
  next
    case (FactorizedRnnCellM c)
    then obtain c' where c': "cells w' a = FactorizedRnnCellM c'" "c'\<lparr>factor := None\<rparr> = c\<lparr>factor := None\<rparr>"
      using e by (cases "cells w' a") (simp_all add: erase_cache_def)
    have "fst (FactorizedRnnCell_call c' state x) = fst (FactorizedRnnCell_call (c'\<lparr>factor := None\<rparr>) state x)"
      by (simp add: FactorizedRnnCell_call_cache_irrelevant)
    also have "\<dots> = fst (FactorizedRnnCell_call c state x)"
      unfolding c'(2) by (simp add: FactorizedRnnCell_call_cache_irrelevant)
    finally show ?thesis using FactorizedRnnCellM c'(1)
      by (simp add: call_cell_def FactorizedRnnCell_call_st_eq case_prod_beta)
  next
    case (DDLRnnCellM c)
    then have "cells w' a = DDLRnnCellM c"
      using e by (cases "cells w' a") (simp_all add: erase_cache_def)
    then show ?thesis using DDLRnnCellM by (simp add: call_cell_def split: prod.splits)
  qed
qed

lemma call_layer_frame:
  "snd (call_layer a x w) = w"
  by (cases "layers w a") (simp_all add: call_layer_def Linear_call_st_def fun_upd_idem)

lemma call_layer_cong:
  "layers w' = layers w \<Longrightarrow> fst (call_layer a x w') = fst (call_layer a x w)"
  by (simp add: call_layer_def split: layer_obj.splits prod.splits)

lemma single_st_frame:
  "learned (snd (single_st d s x w)) = learned w"
  "layers (snd (single_st d s x w)) = layers w"
  "generator (snd (single_st d s x w)) = generator w"
  by (simp_all add: single_st_def case_prod_beta call_layer_frame call_cell_frame
      split: sum.splits)

lemma single_st_pure:
  assumes "learned w1 = learned w" and "layers w1 = layers w"
  shows "fst (single_st d s x w1)
           = RNN_single (RNN_init (cell_fun w (self_cell d)) (layer_fun w (self_output_layer d))) s x"
    and "fst (single_st d s x w1)
           = VectorizedRNN_single
               (VectorizedRNN_init (cell_fun w (self_cell d)) (layer_fun w (self_output_layer d))) s x"
proof -
  have c: "fst (call_cell (self_cell d) s x w1) = cell_fun w (self_cell d) s x"
    using call_cell_cong [OF assms(1)] by (simp add: cell_fun_def)
  have l: "fst (call_layer (self_output_layer d) y (snd (call_cell (self_cell d) s x w1)))
      = layer_fun w (self_output_layer d) y" for y
    using call_layer_cong [of "snd (call_cell (self_cell d) s x w1)" w] assms(2)
    by (simp add: layer_fun_def call_cell_frame)
  show "fst (single_st d s x w1)
           = RNN_single (RNN_init (cell_fun w (self_cell d)) (layer_fun w (self_output_layer d))) s x"
    using c l by (simp add: single_st_def RNN_single_def RNN_init_def case_prod_beta
        split: sum.splits)
  show "fst (single_st d s x w1)
           = VectorizedRNN_single
               (VectorizedRNN_init (cell_fun w (self_cell d)) (layer_fun w (self_output_layer d))) s x"
    using c l by (simp add: single_st_def VectorizedRNN_single_def VectorizedRNN_init_def
        case_prod_beta split: sum.splits)
qed

lemma scan_list_st_inv:
  assumes "\<And>s x w1. keeps w1 \<Longrightarrow> keeps (snd (f s x w1))"
  shows "keeps w1 \<Longrightarrow> keeps (snd (scan_list_st f s xs w1))"
proof (induction xs arbitrary: s w1)
  case Nil
  then show ?case by simp
next
  case (Cons x xs)
  have 1: "keeps (snd (f s x w1))" using Cons.prems by (rule assms)
  show ?case
    using 1 Cons.IH [OF 1] by (simp add: case_prod_beta split: sum.splits)
qed

lemma scan_list_st_pure:
  assumes "\<And>s x w1. keeps w1 \<Longrightarrow> fst (f s x w1) = g s x \<and> keeps (snd (f s x w1))"
  shows "keeps w1 \<Longrightarrow> fst (scan_list_st f s xs w1) = scan_list g s xs"
proof (induction xs arbitrary: s w1)
  case Nil
  then show ?case by simp
next
  case (Cons x xs)
  have 1: "fst (f s x w1) = g s x" "keeps (snd (f s x w1))" using assms [OF Cons.prems] by simp_all
  show ?case
    using 1(1) Cons.IH [OF 1(2)] by (simp add: case_prod_beta split: sum.splits prod.splits)
qed

lemma scan_st_pure:
  assumes "\<And>s x w1. keeps w1 \<Longrightarrow> fst (f s x w1) = g s x \<and> keeps (snd (f s x w1))"
    and "keeps w1"
  shows "fst (scan_st f init xs w1) = scan g init xs"
  using scan_list_st_pure [of keeps f g, OF assms(1) assms(2)]
  by (simp add: scan_st_def scan_def case_prod_beta split: sum.splits prod.splits)

lemma scan_st_inv:
  assumes "\<And>s x w1. keeps w1 \<Longrightarrow> keeps (snd (f s x w1))" and "keeps w1"
  shows "keeps (snd (scan_st f init xs w1))"
  using scan_list_st_inv [of keeps f, OF assms(1) assms(2)] assms(2)
  by (simp add: scan_st_def case_prod_beta split: sum.splits prod.splits)

lemma scan_st_frame:
  "learned (snd (scan_st (single_st d) init xs w)) = learned w"
  "layers (snd (scan_st (single_st d) init xs w)) = layers w"
  "generator (snd (scan_st (single_st d) init xs w)) = generator w"
proof -
  show "learned (snd (scan_st (single_st d) init xs w)) = learned w"
    by (rule scan_st_inv [where keeps = "\<lambda>w1. learned w1 = learned w"])
      (simp_all add: single_st_frame)
  show "layers (snd (scan_st (single_st d) init xs w)) = layers w"
    by (rule scan_st_inv [where keeps = "\<lambda>w1. layers w1 = layers w"])
      (simp_all add: single_st_frame)
  show "generator (snd (scan_st (single_st d) init xs w)) = generator w"
    by (rule scan_st_inv [where keeps = "\<lambda>w1. generator w1 = generator w"])
      (simp_all add: single_st_frame)
qed

text \<open>
  The drivers on the store return what the drivers of the sections above return on the
  cell and the output layer read off any store with the same parameters.
\<close>

lemma RNN_call_st_pure:
  assumes "learned w1 = learned w" and "layers w1 = layers w"
  shows "fst (RNN_call_st d x state w1)
           = RNN_call (RNN_init (cell_fun w (self_cell d)) (layer_fun w (self_output_layer d)))
               x state"
proof -
  let ?R = "RNN_init (cell_fun w (self_cell d)) (layer_fun w (self_output_layer d))"
  have "fst (scan_st (single_st d) state xt w1) = scan (RNN_single ?R) state xt" for xt
    by (rule scan_st_pure [where keeps = "\<lambda>v. learned v = learned w \<and> layers v = layers w"])
      (simp_all add: single_st_pure(1) single_st_frame assms)
  then show ?thesis
    by (simp add: RNN_call_st_def RNN_call_def case_prod_beta split: sum.splits prod.splits)
qed

lemma VectorizedRNN_call_st_pure:
  assumes "learned w1 = learned w" and "layers w1 = layers w"
  shows "fst (VectorizedRNN_call_st d x state w1)
           = VectorizedRNN_call
               (VectorizedRNN_init (cell_fun w (self_cell d)) (layer_fun w (self_output_layer d)))
               x state"
proof -
  let ?V = "VectorizedRNN_init (cell_fun w (self_cell d)) (layer_fun w (self_output_layer d))"
  have "fst (scan_st (single_st d) state x w1) = scan (VectorizedRNN_single ?V) state x"
    by (rule scan_st_pure [where keeps = "\<lambda>v. learned v = learned w \<and> layers v = layers w"])
      (simp_all add: single_st_pure(2) single_st_frame assms)
  then show ?thesis
    by (simp add: VectorizedRNN_call_st_def VectorizedRNN_call_def case_prod_beta
        split: sum.splits prod.splits)
qed

lemma FactorizedRNN_call_st_pure:
  assumes "learned w1 = learned w" and "layers w1 = layers w"
  shows "fst (FactorizedRNN_call_st d x state w1)
           = (case cell_fun w (self_cell d) state x of
                Inl e \<Rightarrow> Inl e
              | Inr out \<Rightarrow>
                  (case layer_fun w (self_output_layer d) out of
                     Inl e \<Rightarrow> Inl e
                   | Inr output \<Rightarrow>
                       (case getitem out (- 1) of
                          Inl e \<Rightarrow> Inl e
                        | Inr final \<Rightarrow> Inr (output, final))))"
proof -
  have c: "fst (call_cell (self_cell d) state x w1) = cell_fun w (self_cell d) state x"
    using call_cell_cong [OF assms(1)] by (simp add: cell_fun_def)
  have l: "fst (call_layer (self_output_layer d) y (snd (call_cell (self_cell d) state x w1)))
      = layer_fun w (self_output_layer d) y" for y
    using call_layer_cong [of "snd (call_cell (self_cell d) state x w1)" w] assms(2)
    by (simp add: layer_fun_def call_cell_frame)
  show ?thesis
    using c l by (simp add: FactorizedRNN_call_st_def case_prod_beta split: sum.splits)
qed

lemma RNN_call_st_frame:
  "learned (snd (RNN_call_st d x state w)) = learned w"
  "layers (snd (RNN_call_st d x state w)) = layers w"
  "generator (snd (RNN_call_st d x state w)) = generator w"
  by (simp_all add: RNN_call_st_def case_prod_beta scan_st_frame split: sum.splits prod.splits)

lemma VectorizedRNN_call_st_frame:
  "learned (snd (VectorizedRNN_call_st d x state w)) = learned w"
  "layers (snd (VectorizedRNN_call_st d x state w)) = layers w"
  "generator (snd (VectorizedRNN_call_st d x state w)) = generator w"
  by (simp_all add: VectorizedRNN_call_st_def case_prod_beta scan_st_frame
      split: sum.splits prod.splits)

lemma FactorizedRNN_call_st_snd:
  "snd (FactorizedRNN_call_st d x state w) = snd (call_cell (self_cell d) state x w)"
  by (simp add: FactorizedRNN_call_st_def case_prod_beta call_layer_frame split: sum.splits)

lemma FactorizedRNN_call_st_frame:
  "learned (snd (FactorizedRNN_call_st d x state w)) = learned w"
  "layers (snd (FactorizedRNN_call_st d x state w)) = layers w"
  "generator (snd (FactorizedRNN_call_st d x state w)) = generator w"
  by (simp_all add: FactorizedRNN_call_st_snd call_cell_frame)

lemma ex_eval:
  "fst (RNN_call_st \<lparr>self_cell = 0, self_output_layer = 0\<rparr> ex_x ex_s ex_world)
     = Inr (\<lparr>shape = [2, 2, 1], data = [77, 81, 381, 409]\<rparr>,
            \<lparr>shape = [2, 2], data = [112, 264, 120, 284]\<rparr>)"
  "fst (FactorizedRNN_call_st \<lparr>self_cell = 1, self_output_layer = 0\<rparr>
          \<lparr>shape = [2, 1], data = [3, 4]\<rparr> \<lparr>shape = [2], data = [1, 2]\<rparr> ex_world)
     = Inr (\<lparr>shape = [1, 1], data = [381]\<rparr>, \<lparr>shape = [2], data = [112, 264]\<rparr>)"
  by code_simp+

text \<open>
  With a factorized cell and an affine output layer at its two addresses, the factorized
  driver on the store returns what \<open>FactorizedRNN_call\<close> returns.
\<close>

lemma FactorizedRNN_call_st_value:
  assumes "cells w (self_cell d) = FactorizedRnnCellM c"
    and "layers w (self_output_layer d) = LinearM L"
  shows "fst (FactorizedRNN_call_st d x state w)
           = fst (FactorizedRNN_call (FactorizedRNN_init c (Linear_call L)) x state)"
proof -
  have "cell_fun w (self_cell d) state x = fst (FactorizedRnnCell_call c state x)"
    using assms(1)
    by (simp add: cell_fun_def call_cell_def FactorizedRnnCell_call_st_eq case_prod_beta)
  moreover have "layer_fun w (self_output_layer d) y = Linear_call L y" for y
    using assms(2) by (simp add: layer_fun_def call_layer_def Linear_call_st_def)
  ultimately show ?thesis
    using FactorizedRNN_call_st_pure [of w w d x state]
    by (simp add: FactorizedRNN_call_fst FactorizedRNN_init_def split: sum.splits)
qed

section \<open>What a forward call writes\<close>

text \<open>
  C10. Every forward call leaves every learned parameter as it was. Each of the three
  cells' \<open>__call__\<close>, run on the cell object, hands the cell back with its affine
  transforms (weights and biases) and its activation as they were: \<open>MyRnnCell\<close> and
  \<open>DDLRnnCell\<close> unchanged altogether, \<open>FactorizedRnnCell\<close> changed in \<open>factor\<close> only,
  which then holds the input transform of the given input sequence (and is left alone
  when that transform raises). Each of the three drivers' \<open>__call__\<close>, run on a store
  of cells and output layers, whatever the classes of the objects that its two
  attributes refer to, leaves every output layer and the state of the random generator
  as they were, and every cell as it was up to the content of a factor cache;
  \<open>FactorizedRNN.__call__\<close> changes the store at the address of its cell only, in
  the way the cell's \<open>__call__\<close> does.
\<close>

theorem forward_calls_write_only_factor:
  fixes m :: "('a::{zero,plus,times}) MyRnnCell"
  shows "snd (MyRnnCell_call_st state x m) = m \<and>
         snd (DDLRnnCell_call_st state x d) = d \<and>
         snd (FactorizedRnnCell_call_st state x f) =
           f\<lparr>factor := (case Linear_call (win f) x of Inl e \<Rightarrow> factor f | Inr fac \<Rightarrow> Some fac)\<rparr> \<and>
         learned (snd (RNN_call_st r x state w)) = learned w \<and>
         layers (snd (RNN_call_st r x state w)) = layers w \<and>
         generator (snd (RNN_call_st r x state w)) = generator w \<and>
         learned (snd (VectorizedRNN_call_st r x state w)) = learned w \<and>
         layers (snd (VectorizedRNN_call_st r x state w)) = layers w \<and>
         generator (snd (VectorizedRNN_call_st r x state w)) = generator w \<and>
         learned (snd (FactorizedRNN_call_st r x state w)) = learned w \<and>
         layers (snd (FactorizedRNN_call_st r x state w)) = layers w \<and>
         generator (snd (FactorizedRNN_call_st r x state w)) = generator w \<and>
         cells (snd (FactorizedRNN_call_st r x state w)) =
           (cells w)
             (self_cell r :=
                (case cells w (self_cell r) of
                   MyRnnCellM c \<Rightarrow> MyRnnCellM c
                 | FactorizedRnnCellM c \<Rightarrow>
                     FactorizedRnnCellM
                       (c\<lparr>factor := (case Linear_call (win c) x of
                                       Inl e \<Rightarrow> factor c | Inr fac \<Rightarrow> Some fac)\<rparr>)
                 | DDLRnnCellM c \<Rightarrow> DDLRnnCellM c))"
proof -
  have cell: "cells (snd (FactorizedRNN_call_st r x state w)) =
           (cells w)
             (self_cell r :=
                (case cells w (self_cell r) of
                   MyRnnCellM c \<Rightarrow> MyRnnCellM c
                 | FactorizedRnnCellM c \<Rightarrow>
                     FactorizedRnnCellM
                       (c\<lparr>factor := (case Linear_call (win c) x of
                                       Inl e \<Rightarrow> factor c | Inr fac \<Rightarrow> Some fac)\<rparr>)
                 | DDLRnnCellM c \<Rightarrow> DDLRnnCellM c))"
    by (cases "cells w (self_cell r)")
      (simp_all add: FactorizedRNN_call_st_snd call_cell_def MyRnnCell_call_st_eq
        DDLRnnCell_call_st_eq FactorizedRnnCell_call_st_eq case_prod_beta
        FactorizedRnnCell_call_snd)
  show ?thesis
    by (simp add: MyRnnCell_call_st_eq DDLRnnCell_call_st_eq FactorizedRnnCell_call_st_eq
        FactorizedRnnCell_call_snd RNN_call_st_frame VectorizedRNN_call_st_frame
        FactorizedRNN_call_st_frame cell)
qed

section \<open>Determinism\<close>

text \<open>
  C7. With fixed weights, a fixed input sequence and a fixed initial state, a call of a
  driver (\<open>RNN\<close>, \<open>VectorizedRNN\<close> or \<open>FactorizedRNN\<close>) returns the same outputs and
  the same final state in every store: the result depends on the store only through the
  parameters of the cells and the output layers, not on the content of a factor cache
  and not on the state of the random generator. In particular the second of two calls
  in a row, which runs in the store that the first call left, returns what the first
  returned.
\<close>

theorem drivers_deterministic:
  fixes w :: "('a::{zero,plus,times}) world"
  assumes "learned w' = learned w" and "layers w' = layers w"
  shows "fst (RNN_call_st d x state w') = fst (RNN_call_st d x state w) \<and>
         fst (VectorizedRNN_call_st d x state w') = fst (VectorizedRNN_call_st d x state w) \<and>
         fst (FactorizedRNN_call_st d x state w') = fst (FactorizedRNN_call_st d x state w) \<and>
         fst (RNN_call_st d x state (snd (RNN_call_st d x state w)))
           = fst (RNN_call_st d x state w) \<and>
         fst (VectorizedRNN_call_st d x state (snd (VectorizedRNN_call_st d x state w)))
           = fst (VectorizedRNN_call_st d x state w) \<and>
         fst (FactorizedRNN_call_st d x state (snd (FactorizedRNN_call_st d x state w)))
           = fst (FactorizedRNN_call_st d x state w)"
proof -
  have 1: "fst (RNN_call_st d x state v) = fst (RNN_call_st d x state w)"
    if "learned v = learned w" "layers v = layers w" for v
    using RNN_call_st_pure [OF that] RNN_call_st_pure [of w w] by simp
  have 2: "fst (VectorizedRNN_call_st d x state v) = fst (VectorizedRNN_call_st d x state w)"
    if "learned v = learned w" "layers v = layers w" for v
    using VectorizedRNN_call_st_pure [OF that] VectorizedRNN_call_st_pure [of w w] by simp
  have 3: "fst (FactorizedRNN_call_st d x state v) = fst (FactorizedRNN_call_st d x state w)"
    if "learned v = learned w" "layers v = layers w" for v
    using FactorizedRNN_call_st_pure [OF that] FactorizedRNN_call_st_pure [of w w] by simp
  show ?thesis
    using 1 [OF assms] 2 [OF assms] 3 [OF assms]
      1 [OF RNN_call_st_frame(1,2)] 2 [OF VectorizedRNN_call_st_frame(1,2)]
      3 [OF FactorizedRNN_call_st_frame(1,2)]
    by simp
qed

theorem drivers_deterministic_witness:
  "learned ex_world_later = learned ex_world \<and> layers ex_world_later = layers ex_world \<and>
   fst (RNN_call_st \<lparr>self_cell = 0, self_output_layer = 0\<rparr> ex_x ex_s ex_world_later)
     = Inr (\<lparr>shape = [2, 2, 1], data = [77, 81, 381, 409]\<rparr>,
            \<lparr>shape = [2, 2], data = [112, 264, 120, 284]\<rparr>) \<and>
   fst (FactorizedRNN_call_st \<lparr>self_cell = 1, self_output_layer = 0\<rparr>
          \<lparr>shape = [2, 1], data = [3, 4]\<rparr> \<lparr>shape = [2], data = [1, 2]\<rparr> ex_world_later)
     = Inr (\<lparr>shape = [1, 1], data = [381]\<rparr>, \<lparr>shape = [2], data = [112, 264]\<rparr>)"
proof -
  have h1: "learned ex_world_later = learned ex_world"
    by (simp add: fun_eq_iff learned_def erase_cache_def ex_world_later_def ex_world_def)
  have h2: "layers ex_world_later = layers ex_world"
    by (simp add: ex_world_later_def ex_world_def)
  have c1: "fst (RNN_call_st \<lparr>self_cell = 0, self_output_layer = 0\<rparr> ex_x ex_s ex_world_later)
     = Inr (\<lparr>shape = [2, 2, 1], data = [77, 81, 381, 409]\<rparr>,
            \<lparr>shape = [2, 2], data = [112, 264, 120, 284]\<rparr>)"
    using drivers_deterministic [OF h1 h2, of "\<lparr>self_cell = 0, self_output_layer = 0\<rparr>" ex_x ex_s]
      ex_eval(1) by simp
  have c2: "fst (FactorizedRNN_call_st \<lparr>self_cell = 1, self_output_layer = 0\<rparr>
          \<lparr>shape = [2, 1], data = [3, 4]\<rparr> \<lparr>shape = [2], data = [1, 2]\<rparr> ex_world_later)
     = Inr (\<lparr>shape = [1, 1], data = [381]\<rparr>, \<lparr>shape = [2], data = [112, 264]\<rparr>)"
    using drivers_deterministic [OF h1 h2, of "\<lparr>self_cell = 1, self_output_layer = 0\<rparr>"
        "\<lparr>shape = [2, 1], data = [3, 4]\<rparr>" "\<lparr>shape = [2], data = [1, 2]\<rparr>"]
      ex_eval(2) by simp
  show ?thesis using h1 h2 c1 c2 by simp
qed

end
